theory Spec2Isabelle
  imports Main
begin

section \<open>The state manager of src/v3/src/state/StateManager.js\<close>

text \<open>
  The manager keeps a registry of states (\<open>keys\<close>, \<open>states\<close>), the list of active
  states (\<open>active\<close>) and the registrations buffered before boot (\<open>_pending\<close>). State
  objects and configuration records are JavaScript objects that the manager mutates in
  place, so they live in two stores indexed by address. The collaborators whose code is
  not part of StateManager.js (the State, Settings and Systems constructors, the loader,
  the main loop, the renderer, and the hooks supplied by the caller) are opaque: every
  call the manager makes to one of them is recorded in a trace, and the constructors are
  parameters of the model.

  \<open>this.keys\<close> is a plain object used as a map, so it has own properties and a
  prototype: \<open>this.keys.hasOwnProperty\<close> is the value found under that name,
  \<open>this.keys[key]\<close> also finds inherited properties, and an assignment to
  \<open>this.keys['__proto__']\<close> replaces the prototype instead of creating a property.

  Assumptions of the model: hooks and collaborators do not call back into the manager
  and do not throw; keys are strings; a state object is neither a function nor one of
  the record objects of the active list; state objects and plain configuration records
  inherit from \<open>Object.prototype\<close> and do not shadow its properties; a timestamp is
  a number that the manager only passes on.
\<close>

subsection \<open>Data\<close>

type_synonym ref = nat
type_synonym cref = nat
type_synonym timestamp = int

datatype hookname =
  Init | Preload | Create | Shutdown | PreUpdate | Update | PostUpdate | Render | LoadUpdate

text \<open>
  A property of an object that is meant to hold a function: absent, the shared no-op
  \<open>NOOP\<close>, or a function of the caller. \<open>Fn n\<close> is a function that, when called on a
  state, adds \<open>n\<close> files to the list of that state's loader. The manager tests
  \<open>init\<close>, \<open>preload\<close> and \<open>create\<close> for truthiness and \<open>loadUpdate\<close> with
  \<open>hasOwnProperty\<close>; \<open>Absent\<close> is the outcome "no" of the test made on that property.
\<close>

datatype hook = Absent | NOOP | Fn nat

record settings =
  settings_key :: string
  settings_active :: bool
  settings_x :: int
  settings_y :: int
  settings_width :: int
  settings_height :: int

record loader =
  list_size :: nat
  once_listeners :: nat

record systems =
  load :: "loader option"
  updates_running :: bool
  mainloop_running :: bool
  fbo :: "(int \<times> int \<times> int \<times> int) option"

record active_record =
  ar_index :: int
  ar_state :: ref

text \<open>
  JavaScript values that the manager compares with \<open>===\<close> or finds in \<open>this.keys\<close>.
  Values built from different constructors are never strictly equal; two state objects
  are equal when they are the same object. (The manager never compares two records of
  the active list with each other.) \<open>JForeign\<close> is a truthy value that is not a
  state object and has no property \<open>settings\<close>: \<open>Object.prototype\<close> and its functions.
\<close>

datatype jsval =
  JUndefined | JBool bool | JString string | JState ref | JRecord active_record | JForeign

text \<open>\<open>is_State\<close> is the outcome of \<open>instanceof State\<close>; \<open>has_game\<close> records that
  the \<open>game\<close> property was assigned. \<open>props\<close> is what reading a property of the
  object by its name gives, for a name that \<open>Object.prototype\<close> does not define: a
  falsy value, an object of the store that has the shape of a state, or a truthy value
  without a property \<open>settings\<close>. The manager reads a state object this way only
  after the object became the prototype of \<open>this.keys\<close>.\<close>

record state_obj =
  is_State :: bool
  has_game :: bool
  settings :: settings
  sys :: systems
  hooks :: "hookname \<Rightarrow> hook"
  props :: "string \<Rightarrow> jsval"

text \<open>A plain configuration record: its own \<open>key\<close> property, if it has one, and its
  own hook properties.\<close>

record config_obj =
  cfg_key :: "string option"
  cfg_hooks :: "hookname \<Rightarrow> hook"

text \<open>
  The second argument of \<open>add\<close>: an instance of State (by address), a plain object (by
  address), \<open>null\<close>, a constructor function (given by the object that \<open>new\<close> builds from
  it), or any other value (\<open>undefined\<close>, a number, a string, a boolean).
\<close>

datatype source =
  SInstance ref | SObject cref | SNull | SFunction state_obj | SOther

record pending =
  p_index :: int
  p_key :: "string option"
  p_state :: source
  p_autoStart :: bool

datatype error = DuplicateKeyError string | TypeError

record game =
  isBooted :: bool
  renderType_WEBGL :: bool
  config_width :: int
  config_height :: int

datatype event =
  Call ref hookname
| SysInit ref
| CreateFBO ref int int int int
| LoaderReset ref
| LoaderOnce ref
| LoaderStart ref
| MainloopStart ref
| MainloopStep ref timestamp

text \<open>\<open>keys\<close> holds the own properties of \<open>this.keys\<close>; \<open>keys_proto\<close> is \<open>None\<close>
  while the prototype of \<open>this.keys\<close> is \<open>Object.prototype\<close>, and \<open>Some r\<close> once it
  was replaced by the state object \<open>r\<close>.\<close>

record manager =
  game :: game
  keys :: "string \<rightharpoonup> ref option"
  keys_proto :: "ref option"
  states :: "ref option list"
  active :: "active_record list"
  pending :: "pending list"
  heap :: "ref \<Rightarrow> state_obj"
  next_ref :: ref
  configs :: "cref \<Rightarrow> config_obj"
  trace :: "event list"

text \<open>The constructors of State.js, Settings.js and Systems.js, which are not part of
  the manager: \<open>new State(config)\<close>, \<open>new Settings(state, key)\<close> and
  \<open>new Systems(state)\<close>.\<close>

record collab =
  State_ctor :: "config_obj \<Rightarrow> state_obj"
  Settings_ctor :: "string \<Rightarrow> settings"
  Systems_ctor :: systems

subsection \<open>JavaScript primitives\<close>

fun truthy :: "jsval \<Rightarrow> bool" where
  "truthy JUndefined = False"
| "truthy (JBool b) = b"
| "truthy (JString k) = (k \<noteq> [])"
| "truthy (JState r) = True"
| "truthy (JRecord a) = True"
| "truthy JForeign = True"

text \<open>The names that \<open>Object.prototype\<close> defines, \<open>__proto__\<close> apart.\<close>

definition Object_prototype_names :: "string list" where
  "Object_prototype_names =
     [''constructor'', ''hasOwnProperty'', ''isPrototypeOf'', ''propertyIsEnumerable'',
      ''toLocaleString'', ''toString'', ''valueOf'', ''__defineGetter__'',
      ''__defineSetter__'', ''__lookupGetter__'', ''__lookupSetter__'']"

definition of_state :: "ref option \<Rightarrow> jsval" where
  "of_state v = (case v of None \<Rightarrow> JUndefined | Some r \<Rightarrow> JState r)"

text \<open>\<open>Array.prototype.indexOf\<close>: the position of the first element strictly equal to
  the value, or -1.\<close>

fun indexOf_from :: "int \<Rightarrow> jsval list \<Rightarrow> jsval \<Rightarrow> int" where
  "indexOf_from i [] v = -1"
| "indexOf_from i (x # xs) v = (if x = v then i else indexOf_from (i + 1) xs v)"

definition indexOf :: "jsval list \<Rightarrow> jsval \<Rightarrow> int" where
  "indexOf xs v = indexOf_from 0 xs v"

text \<open>\<open>Array.prototype.splice(start, 1)\<close> for a start that is not negative.\<close>

definition splice1 :: "nat \<Rightarrow> 'a list \<Rightarrow> 'a list" where
  "splice1 i xs = take i xs @ drop (Suc i) xs"

text \<open>
  \<open>sortStates\<close> compares two records by their \<open>index\<close> alone, smaller first, and
  \<open>this.active.sort(this.sortStates.bind(this))\<close> sorts the active list with it. The
  model keeps records of equal index in their order (JavaScript leaves that order to
  the engine).
\<close>

definition sortStates :: "active_record \<Rightarrow> active_record \<Rightarrow> int" where
  "sortStates stateA stateB =
     (if ar_index stateA < ar_index stateB then -1
      else if ar_index stateA > ar_index stateB then 1
      else 0)"

fun insert_by :: "('a \<Rightarrow> 'a \<Rightarrow> int) \<Rightarrow> 'a \<Rightarrow> 'a list \<Rightarrow> 'a list" where
  "insert_by cmp x [] = [x]"
| "insert_by cmp x (y # ys) =
     (if cmp x y \<le> 0 then x # y # ys else y # insert_by cmp x ys)"

definition sort_by :: "('a \<Rightarrow> 'a \<Rightarrow> int) \<Rightarrow> 'a list \<Rightarrow> 'a list" where
  "sort_by cmp xs = foldr (insert_by cmp) xs []"

subsection \<open>Collaborators\<close>

definition upd_state :: "ref \<Rightarrow> (state_obj \<Rightarrow> state_obj) \<Rightarrow> manager \<Rightarrow> manager" where
  "upd_state r f s = s\<lparr>heap := (heap s)(r := f (heap s r))\<rparr>"

definition log :: "event \<Rightarrow> manager \<Rightarrow> manager" where
  "log e s = s\<lparr>trace := trace s @ [e]\<rparr>"

definition enqueue :: "nat \<Rightarrow> state_obj \<Rightarrow> state_obj" where
  "enqueue n st =
     (case load (sys st) of
        None \<Rightarrow> st
      | Some l \<Rightarrow> st\<lparr>sys := (sys st)\<lparr>load := Some (l\<lparr>list_size := list_size l + n\<rparr>)\<rparr>\<rparr>)"

text \<open>\<open>state.h.call(state, ...)\<close> for a hook property \<open>h\<close> that holds a function.\<close>

definition call_hook :: "ref \<Rightarrow> hookname \<Rightarrow> manager \<Rightarrow> manager" where
  "call_hook r h s =
     (case hooks (heap s r) h of
        Fn n \<Rightarrow> upd_state r (enqueue n) (log (Call r h) s)
      | _ \<Rightarrow> log (Call r h) s)"

text \<open>\<open>newState.sys.init()\<close>.\<close>

definition sys_init :: "ref \<Rightarrow> manager \<Rightarrow> manager" where
  "sys_init r s = log (SysInit r) s"

text \<open>Modelled from the spec: the loader, which is not part of the manager, "accepts a
  reset/start command and emits a single completion notification"; \<open>reset()\<close> resets
  the loader's queue.\<close>

definition loader_reset :: "ref \<Rightarrow> manager \<Rightarrow> manager" where
  "loader_reset r s =
     upd_state r (\<lambda>st. case load (sys st) of
                         None \<Rightarrow> st
                       | Some l \<Rightarrow> st\<lparr>sys := (sys st)\<lparr>load := Some (l\<lparr>list_size := 0\<rparr>)\<rparr>\<rparr>)
       (log (LoaderReset r) s)"

text \<open>\<open>state.sys.load.events.once('LOADER_COMPLETE_EVENT', this.loadComplete.bind(this))\<close>:
  one more one-shot listener on the loader of the state.\<close>

definition loader_once :: "ref \<Rightarrow> manager \<Rightarrow> manager" where
  "loader_once r s =
     upd_state r (\<lambda>st. case load (sys st) of
                         None \<Rightarrow> st
                       | Some l \<Rightarrow> st\<lparr>sys := (sys st)\<lparr>load :=
                                      Some (l\<lparr>once_listeners := Suc (once_listeners l)\<rparr>)\<rparr>\<rparr>)
       (log (LoaderOnce r) s)"

definition loader_start :: "ref \<Rightarrow> manager \<Rightarrow> manager" where
  "loader_start r s = log (LoaderStart r) s"

text \<open>Modelled from the spec: the main-loop driver, which is not part of the manager,
  has "start/step/running operations"; \<open>start()\<close> leaves the driver running.\<close>

definition mainloop_start :: "ref \<Rightarrow> manager \<Rightarrow> manager" where
  "mainloop_start r s =
     upd_state r (\<lambda>st. st\<lparr>sys := (sys st)\<lparr>mainloop_running := True\<rparr>\<rparr>) (log (MainloopStart r) s)"

definition mainloop_step :: "ref \<Rightarrow> timestamp \<Rightarrow> manager \<Rightarrow> manager" where
  "mainloop_step r t s = log (MainloopStep r t) s"

text \<open>Modelled from the spec: \<open>GetObjectValue(source, name, default)\<close>, which is not
  part of the manager, yields the named property of the source, "defaulting absent ones
  to no-ops".\<close>

definition GetObjectValue :: "(hookname \<Rightarrow> hook) \<Rightarrow> hookname \<Rightarrow> hook \<Rightarrow> hook" where
  "GetObjectValue src h dflt = (case src h of Absent \<Rightarrow> dflt | v \<Rightarrow> v)"

subsection \<open>The manager\<close>

text \<open>The argument \<open>stateConfig\<close> of the constructor: falsy, an array, or one value.\<close>

datatype init_config = NoConfig | ConfigArray "source list" | ConfigSingle source

text \<open>\<open>new StateManager(game, stateConfig)\<close>, in a world whose stores of state objects
  and configuration records are \<open>h\<close> (with \<open>n\<close> the next free address) and \<open>c\<close>.\<close>

definition StateManager ::
  "game \<Rightarrow> init_config \<Rightarrow> (ref \<Rightarrow> state_obj) \<Rightarrow> ref \<Rightarrow> (cref \<Rightarrow> config_obj) \<Rightarrow> manager" where
  "StateManager g stateConfig h n c =
     \<lparr>game = g, keys = Map.empty, keys_proto = None, states = [], active = [],
      pending =
        (case stateConfig of
           NoConfig \<Rightarrow> []
         | ConfigArray xs \<Rightarrow>
             map (\<lambda>i. \<lparr>p_index = int i, p_key = Some ''default'', p_state = xs ! i,
                       p_autoStart = (i = 0)\<rparr>) [0..<length xs]
         | ConfigSingle x \<Rightarrow>
             [\<lparr>p_index = 0, p_key = Some ''default'', p_state = x, p_autoStart = True\<rparr>]),
      heap = h, next_ref = n, configs = c, trace = []\<rparr>"

text \<open>The first part of \<open>getKey\<close>, up to the comment "By this point it's either
  'default' or extracted from the State": the key that the registration resolves to.
  \<open>null.hasOwnProperty\<close> is a TypeError.\<close>

definition resolveKey :: "string option \<Rightarrow> source \<Rightarrow> manager \<Rightarrow> error + string" where
  "resolveKey key0 stateConfig s =
     (let key = (case key0 of None \<Rightarrow> ''default''
                            | Some k \<Rightarrow> if k = [] then ''default'' else k)
      in case stateConfig of
           SInstance r \<Rightarrow> Inr (settings_key (settings (heap s r)))
         | SObject c \<Rightarrow> Inr (case cfg_key (configs s c) of Some k \<Rightarrow> k | None \<Rightarrow> key)
         | SNull \<Rightarrow> Inl TypeError
         | SFunction f \<Rightarrow> Inr key
         | SOther \<Rightarrow> Inr key)"

text \<open>\<open>getKey\<close>: \<open>this.keys.hasOwnProperty(key)\<close> calls whatever is found under the
  name \<open>hasOwnProperty\<close>. Once \<open>this.keys\<close> has an own property of that name, a
  state object or \<open>undefined\<close>, the call is a TypeError; otherwise it is the
  function of \<open>Object.prototype\<close>, which tests the own properties.\<close>

definition getKey :: "string option \<Rightarrow> source \<Rightarrow> manager \<Rightarrow> error + string" where
  "getKey key0 stateConfig s =
     (case resolveKey key0 stateConfig s of
        Inl e \<Rightarrow> Inl e
      | Inr key \<Rightarrow>
          if keys s ''hasOwnProperty'' \<noteq> None then Inl TypeError
          else if keys s key \<noteq> None then Inl (DuplicateKeyError key)
          else Inr key)"

text \<open>\<open>this.keys[key] = newState\<close>: for the key \<open>__proto__\<close> the assignment runs the
  setter of \<open>Object.prototype\<close>, which replaces the prototype of \<open>this.keys\<close> when
  the value is an object, does nothing when it is \<open>undefined\<close>, and creates no
  property.\<close>

definition keys_put :: "string \<Rightarrow> ref option \<Rightarrow> manager \<Rightarrow> manager" where
  "keys_put key newState s =
     (if key = ''__proto__'' then
        (case newState of None \<Rightarrow> s | Some r \<Rightarrow> s\<lparr>keys_proto := Some r\<rparr>)
      else s\<lparr>keys := (keys s)(key \<mapsto> newState)\<rparr>)"

definition createStateFrameBuffer :: "ref \<Rightarrow> manager \<Rightarrow> manager" where
  "createStateFrameBuffer r s =
     (let st = heap s r;
          x = settings_x (settings st);
          y = settings_y (settings st);
          se1 = (if settings_width (settings st) = -1
                 then (settings st)\<lparr>settings_width := config_width (game s)\<rparr>
                 else settings st);
          se2 = (if settings_height se1 = -1
                 then se1\<lparr>settings_height := config_height (game s)\<rparr>
                 else se1);
          width = settings_width se2;
          height = settings_height se2
      in log (CreateFBO r x y width height)
           (s\<lparr>heap := (heap s)(r := st\<lparr>settings := se2,
                                        sys := (sys st)\<lparr>fbo := Some (x, y, width, height)\<rparr>\<rparr>)\<rparr>))"

definition setupCallbacks :: "ref \<Rightarrow> (hookname \<Rightarrow> hook) \<Rightarrow> manager \<Rightarrow> manager" where
  "setupCallbacks r stateConfig s =
     upd_state r
       (\<lambda>st. st\<lparr>hooks := (\<lambda>h. if h \<in> set [Init, Preload, Create, Shutdown,
                                           PreUpdate, Update, PostUpdate, Render]
                              then GetObjectValue stateConfig h NOOP
                              else hooks st h)\<rparr>) s"

definition createStateFromInstance :: "string \<Rightarrow> ref \<Rightarrow> manager \<Rightarrow> ref \<times> manager" where
  "createStateFromInstance key r s =
     (let s1 = upd_state r (\<lambda>st. st\<lparr>has_game := True,
                                     settings := (settings st)\<lparr>settings_key := key\<rparr>\<rparr>) s;
          s2 = sys_init r s1;
          s3 = (if renderType_WEBGL (game s2) then createStateFrameBuffer r s2 else s2)
      in (r, s3))"

text \<open>Allocation of a new object in the store of state objects.\<close>

definition alloc :: "state_obj \<Rightarrow> manager \<Rightarrow> ref \<times> manager" where
  "alloc st s = (next_ref s, s\<lparr>heap := (heap s)(next_ref s := st), next_ref := Suc (next_ref s)\<rparr>)"

definition createStateFromObject ::
  "collab \<Rightarrow> string \<Rightarrow> cref \<Rightarrow> manager \<Rightarrow> ref \<times> manager" where
  "createStateFromObject C key c s =
     (let (r, s1) = alloc ((State_ctor C (configs s c))\<lparr>is_State := True\<rparr>) s;
          s2 = upd_state r (\<lambda>st. st\<lparr>has_game := True\<rparr>) s1;
          s3 = sys_init r s2;
          s4 = (if renderType_WEBGL (game s3) then createStateFrameBuffer r s3 else s3)
      in (r, setupCallbacks r (cfg_hooks (configs s4 c)) s4))"

definition createStateFromFunction ::
  "collab \<Rightarrow> string \<Rightarrow> state_obj \<Rightarrow> manager \<Rightarrow> ref \<times> manager" where
  "createStateFromFunction C key f s =
     (let (r, s1) = alloc f s
      in if is_State (heap s1 r) then createStateFromInstance key r s1
         else
           (let s2 = upd_state r (\<lambda>st. st\<lparr>has_game := True,
                                           settings := Settings_ctor C key,
                                           sys := Systems_ctor C\<rparr>) s1;
                s3 = sys_init r s2;
                s4 = (if renderType_WEBGL (game s3) then createStateFrameBuffer r s3 else s3)
            in (r, setupCallbacks r (hooks (heap s4 r)) s4)))"

text \<open>\<open>this.keys[key]\<close> for a key that is not an own property: \<open>__proto__\<close> gives
  the prototype, a name of \<open>Object.prototype\<close> gives its function, and any other name
  is looked up in the state object that replaced the prototype, if one did.\<close>

definition inherited :: "string \<Rightarrow> manager \<Rightarrow> jsval" where
  "inherited key s =
     (if key = ''__proto__'' then
        (case keys_proto s of None \<Rightarrow> JForeign | Some r \<Rightarrow> JState r)
      else if key \<in> set Object_prototype_names then JForeign
      else (case keys_proto s of None \<Rightarrow> JUndefined | Some r \<Rightarrow> props (heap s r) key))"

definition getState :: "string \<Rightarrow> manager \<Rightarrow> jsval" where
  "getState key s = (case keys s key of None \<Rightarrow> inherited key s | Some v \<Rightarrow> of_state v)"

definition getStateIndex :: "jsval \<Rightarrow> manager \<Rightarrow> int" where
  "getStateIndex state s = indexOf (map of_state (states s)) state"

fun getActiveStateIndex_loop :: "active_record list \<Rightarrow> jsval \<Rightarrow> int" where
  "getActiveStateIndex_loop [] state = -1"
| "getActiveStateIndex_loop (a # as) state =
     (if JState (ar_state a) = state then ar_index a else getActiveStateIndex_loop as state)"

definition getActiveStateIndex :: "jsval \<Rightarrow> manager \<Rightarrow> int" where
  "getActiveStateIndex state s = getActiveStateIndex_loop (active s) state"

text \<open>\<open>state && state.settings.active && this.active.indexOf(state) !== -1\<close>: the
  elements of \<open>this.active\<close> are the records, the value looked for is the state. A
  falsy \<open>state\<close> is the result; a truthy value that is not a state object has no
  \<open>settings\<close>, and reading \<open>active\<close> of \<open>undefined\<close> is a TypeError.\<close>

definition isActive :: "string \<Rightarrow> manager \<Rightarrow> error + jsval" where
  "isActive key s =
     (case getState key s of
        JState r \<Rightarrow>
          Inr (if \<not> settings_active (settings (heap s r)) then JBool False
               else JBool (indexOf (map JRecord (active s)) (JState r) \<noteq> -1))
      | state \<Rightarrow> if truthy state then Inl TypeError else Inr state)"

definition startCreate :: "ref \<Rightarrow> manager \<Rightarrow> manager" where
  "startCreate r s =
     (let s1 = (if hooks (heap s r) Create \<noteq> Absent then call_hook r Create s else s);
          i = getStateIndex (JState r) s1;
          s2 = s1\<lparr>active := active s1 @ [\<lparr>ar_index = i, ar_state = r\<rparr>]\<rparr>;
          s3 = s2\<lparr>active := sort_by sortStates (active s2)\<rparr>;
          s4 = upd_state r (\<lambda>st. st\<lparr>sys := (sys st)\<lparr>updates_running := True\<rparr>\<rparr>) s3
      in mainloop_start r s4)"

text \<open>\<open>loadComplete(event)\<close>, where \<open>r\<close> is the state \<open>event.loader.state\<close>.\<close>

definition loadComplete :: "ref \<Rightarrow> manager \<Rightarrow> manager" where
  "loadComplete r s =
     startCreate r (if hooks (heap s r) LoadUpdate \<noteq> Absent then call_hook r LoadUpdate s else s)"

text \<open>The part of \<open>start\<close> that runs once the state object \<open>r\<close> was found and was
  not active (from \<open>state.settings.active = true\<close> on).\<close>

definition start_state :: "ref \<Rightarrow> manager \<Rightarrow> manager" where
  "start_state r s =
     (let s1 = upd_state r (\<lambda>st. st\<lparr>settings :=
                                     (settings st)\<lparr>settings_active := True\<rparr>\<rparr>) s;
          s2 = (if hooks (heap s1 r) Init \<noteq> Absent then call_hook r Init s1 else s1)
      in if hooks (heap s2 r) Preload \<noteq> Absent \<and> load (sys (heap s2 r)) \<noteq> None then
           (let s3 = loader_reset r s2;
                s4 = call_hook r Preload s3
            in if (case load (sys (heap s4 r)) of None \<Rightarrow> 0 | Some l \<Rightarrow> list_size l) = 0
               then startCreate r s4
               else loader_start r (loader_once r s4))
         else startCreate r s2)"

text \<open>\<open>start(key)\<close>. An error thrown by \<open>isActive\<close> leaves \<open>start\<close> before anything
  was written. (After \<open>isActive\<close> returned, a truthy \<open>state\<close> is a state object:
  the last case, writing \<open>active\<close> into the missing \<open>settings\<close> of another truthy
  value, is never reached.)\<close>

definition start :: "string \<Rightarrow> manager \<Rightarrow> (error + unit) \<times> manager" where
  "start key s =
     (if \<not> isBooted (game s) then
        (Inr (),
         s\<lparr>pending := map (\<lambda>entry. if p_key entry = Some key
                                    then entry\<lparr>p_autoStart := True\<rparr> else entry) (pending s)\<rparr>)
      else
        (let state = getState key s
         in if truthy state then
              (case isActive key s of
                 Inl e \<Rightarrow> (Inl e, s)
               | Inr a \<Rightarrow>
                   if truthy a then (Inr (), s)
                   else (case state of
                           JState r \<Rightarrow> (Inr (), start_state r s)
                         | _ \<Rightarrow> (Inl TypeError, s)))
            else (Inr (), s)))"

text \<open>\<open>pause(key)\<close> hands the key itself to \<open>getActiveStateIndex\<close> and uses the number
  it gets back as a position in the active list. \<open>state.settings.active = false\<close> is a
  TypeError when \<open>getState\<close> finds no state object.\<close>

definition pause :: "string \<Rightarrow> manager \<Rightarrow> (error + unit) \<times> manager" where
  "pause key s =
     (let index = getActiveStateIndex (JString key) s
      in if index > -1 then
           (case getState key s of
              JState r \<Rightarrow>
                (let s1 = upd_state r (\<lambda>st. st\<lparr>settings :=
                                                (settings st)\<lparr>settings_active := False\<rparr>\<rparr>) s;
                     s2 = s1\<lparr>active := splice1 (nat index) (active s1)\<rparr>
                 in (Inr (), s2\<lparr>active := sort_by sortStates (active s2)\<rparr>))
            | _ \<Rightarrow> (Inl TypeError, s))
         else (Inr (), s))"

fun step_loop :: "timestamp \<Rightarrow> active_record list \<Rightarrow> manager \<Rightarrow> manager" where
  "step_loop t [] s = s"
| "step_loop t (a # as) s =
     step_loop t as
       (if mainloop_running (sys (heap s (ar_state a)))
        then mainloop_step (ar_state a) t s else s)"

definition step :: "timestamp \<Rightarrow> manager \<Rightarrow> manager" where
  "step t s = step_loop t (active s) s"

text \<open>
  The middle of \<open>add\<close>, from \<open>var newState\<close> to \<open>this.states.push(newState)\<close>: the
  state is built from the source and written into the registry. A source that is
  neither a State, an object nor a function leaves \<open>newState\<close> undefined, and the
  registry is still written.
\<close>

definition register ::
  "collab \<Rightarrow> string \<Rightarrow> source \<Rightarrow> manager \<Rightarrow> error + (ref option \<times> manager)" where
  "register C key stateConfig s =
     (case (case stateConfig of
              SInstance r \<Rightarrow>
                (let (n, s1) = createStateFromInstance key r s in Inr (Some n, s1))
            | SObject c \<Rightarrow>
                (let s0 = s\<lparr>configs := (configs s)(c := (configs s c)\<lparr>cfg_key := Some key\<rparr>)\<rparr>;
                     (n, s1) = createStateFromObject C key c s0
                 in Inr (Some n, s1))
            | SNull \<Rightarrow> Inl TypeError
            | SFunction f \<Rightarrow>
                (let (n, s1) = createStateFromFunction C key f s in Inr (Some n, s1))
            | SOther \<Rightarrow> Inr (None, s)) of
        Inl e \<Rightarrow> Inl e
      | Inr (newState, s1) \<Rightarrow>
          (let s2 = keys_put key newState s1;
               s3 = s2\<lparr>states := states s2 @ [newState]\<rparr>
           in Inr (newState, s3)))"

text \<open>
  \<open>add(key, stateConfig, autoStart)\<close>. The result is the new state, or \<open>undefined\<close>
  when the registration was only buffered. Reading \<open>newState.settings\<close> of an
  undefined \<open>newState\<close> is a TypeError unless \<open>autoStart\<close> is true.
  \<open>this._start\<close> is never initialised, so \<open>this._start.push\<close> is a TypeError. An
  error thrown by \<open>start\<close> leaves \<open>add\<close> after the registry was written.
\<close>

definition add ::
  "collab \<Rightarrow> string option \<Rightarrow> source \<Rightarrow> bool option \<Rightarrow> manager \<Rightarrow> (error + ref option) \<times> manager"
  where
  "add C key0 stateConfig autoStart0 s =
     (let autoStart = (case autoStart0 of None \<Rightarrow> False | Some b \<Rightarrow> b)
      in if \<not> isBooted (game s) then
           (Inr None,
            s\<lparr>pending := pending s @
                 [\<lparr>p_index = int (length (pending s)), p_key = key0,
                   p_state = stateConfig, p_autoStart = autoStart\<rparr>]\<rparr>)
         else
           case getKey key0 stateConfig s of
             Inl e \<Rightarrow> (Inl e, s)
           | Inr key \<Rightarrow>
               (case register C key stateConfig s of
                  Inl e \<Rightarrow> (Inl e, s)
                | Inr (newState, s3) \<Rightarrow>
                    (case (if autoStart then Inr True
                           else case newState of
                                  None \<Rightarrow> Inl TypeError
                                | Some n \<Rightarrow> Inr (settings_active (settings (heap s3 n)))) of
                       Inl e \<Rightarrow> (Inl e, s3)
                     | Inr go \<Rightarrow>
                         if go then
                           (if isBooted (game s3) then
                              (let (res, s4) = start key s3
                               in (case res of Inl e \<Rightarrow> Inl e | Inr u \<Rightarrow> Inr newState, s4))
                            else (Inl TypeError, s3))
                         else (Inr newState, s3))))"

text \<open>
  \<open>boot()\<close>: the loop reads \<open>this._pending.length\<close> at every turn, and \<open>add\<close> appends
  to \<open>this._pending\<close> while the game is not booted, so the loop need not end; \<open>None\<close>
  is a loop that never returns. An error thrown by \<open>add\<close> leaves the loop and \<open>boot\<close>.
\<close>

partial_function (option) boot_loop ::
  "collab \<Rightarrow> nat \<Rightarrow> manager \<Rightarrow> ((error + unit) \<times> manager) option" where
  "boot_loop C i s =
     (if i < length (pending s) then
        (let entry = pending s ! i
         in case add C (p_key entry) (p_state entry) (Some (p_autoStart entry)) s of
              (Inl e, s') \<Rightarrow> Some (Inl e, s')
            | (Inr v, s') \<Rightarrow> boot_loop C (Suc i) s')
      else Some (Inr (), s\<lparr>pending := []\<rparr>))"

definition boot :: "collab \<Rightarrow> manager \<Rightarrow> ((error + unit) \<times> manager) option" where
  "boot C s = boot_loop C 0 s"

subsection \<open>A sample world\<close>

text \<open>
  Stand-ins for the constructors: a new State takes its key from the configuration
  record, is not active, has a loader and no offscreen target. The sample game is
  booted and does not render with WebGL. The sample configuration records: record 0 has
  an \<open>init\<close> and a \<open>create\<close> hook, record 1 has its own key \<open>embedded\<close>, record 2 has
  a \<open>preload\<close> hook that queues two files and a \<open>loadUpdate\<close> hook, every other
  record is empty.
\<close>

definition blank_state :: state_obj where
  "blank_state =
     \<lparr>is_State = False, has_game = False,
      settings = \<lparr>settings_key = [], settings_active = False, settings_x = 0,
                  settings_y = 0, settings_width = -1, settings_height = -1\<rparr>,
      sys = \<lparr>load = Some \<lparr>list_size = 0, once_listeners = 0\<rparr>, updates_running = False,
             mainloop_running = False, fbo = None\<rparr>,
      hooks = (\<lambda>h. Absent), props = (\<lambda>k. JUndefined)\<rparr>"

definition demo_collab :: collab where
  "demo_collab =
     \<lparr>State_ctor = (\<lambda>cfg. blank_state\<lparr>is_State := True,
          settings := (settings blank_state)\<lparr>settings_key :=
                        (case cfg_key cfg of None \<Rightarrow> [] | Some k \<Rightarrow> k)\<rparr>\<rparr>),
      Settings_ctor = (\<lambda>k. (settings blank_state)\<lparr>settings_key := k\<rparr>),
      Systems_ctor = sys blank_state\<rparr>"

definition demo_game :: game where
  "demo_game =
     \<lparr>isBooted = True, renderType_WEBGL = False, config_width = 800, config_height = 600\<rparr>"

definition demo_configs :: "cref \<Rightarrow> config_obj" where
  "demo_configs c =
     (if c = 0 then
        \<lparr>cfg_key = None, cfg_hooks = (\<lambda>h. if h = Init \<or> h = Create then Fn 0 else Absent)\<rparr>
      else if c = 1 then
        \<lparr>cfg_key = Some ''embedded'', cfg_hooks = (\<lambda>h. Absent)\<rparr>
      else if c = 2 then
        \<lparr>cfg_key = None,
         cfg_hooks = (\<lambda>h. if h = Preload then Fn 2 else if h = LoadUpdate then Fn 0 else Absent)\<rparr>
      else \<lparr>cfg_key = None, cfg_hooks = (\<lambda>h. Absent)\<rparr>)"

text \<open>A manager built after boot with no initial configuration.\<close>

definition demo0 :: manager where
  "demo0 = StateManager demo_game NoConfig (\<lambda>r. blank_state) 0 demo_configs"

text \<open>\<open>add('a', record 0, true)\<close>: one state, registered and started.\<close>

definition demo_a :: manager where
  "demo_a = snd (add demo_collab (Some ''a'') (SObject 0) (Some True) demo0)"

text \<open>\<open>add('b', record 2)\<close>: one state with a \<open>preload\<close> hook, registered and not
  started.\<close>

definition demo_b :: manager where
  "demo_b = snd (add demo_collab (Some ''b'') (SObject 2) None demo0)"

text \<open>Three states registered in the order \<open>a\<close>, \<open>b\<close>, \<open>c\<close> from the empty records 3,
  4 and 5, none of them started.\<close>

definition demo_reg1 :: manager where
  "demo_reg1 = snd (add demo_collab (Some ''a'') (SObject 3) None demo0)"

definition demo_reg2 :: manager where
  "demo_reg2 = snd (add demo_collab (Some ''b'') (SObject 4) None demo_reg1)"

definition demo_abc :: manager where
  "demo_abc = snd (add demo_collab (Some ''c'') (SObject 5) None demo_reg2)"

text \<open>\<open>new StateManager(game, [record 3, record 4])\<close> before boot, then the game
  boots: both buffered registrations carry the key \<open>default\<close>.\<close>

definition demo_array :: manager where
  "demo_array =
     (StateManager (demo_game\<lparr>isBooted := False\<rparr>) (ConfigArray [SObject 3, SObject 4])
        (\<lambda>r. blank_state) 0 demo_configs)\<lparr>game := demo_game\<rparr>"

text \<open>The same manager after the first of the two buffered registrations was replayed.\<close>

definition demo_array1 :: manager where
  "demo_array1 = snd (add demo_collab (Some ''default'') (SObject 3) (Some True) demo_array)"

text \<open>A manager that is not booted yet, with nothing buffered.\<close>

definition demo_unbooted :: manager where
  "demo_unbooted =
     StateManager (demo_game\<lparr>isBooted := False\<rparr>) NoConfig (\<lambda>r. blank_state) 0 demo_configs"

text \<open>\<open>add('a', record 3, true)\<close> and \<open>add('b', record 4)\<close> before boot, then the
  game boots.\<close>

definition demo_buffered :: manager where
  "demo_buffered =
     (snd (add demo_collab (Some ''b'') (SObject 4) None
        (snd (add demo_collab (Some ''a'') (SObject 3) (Some True) demo_unbooted))))
     \<lparr>game := demo_game\<rparr>"

text \<open>\<open>add('__proto__', record 3)\<close> and \<open>add('hasOwnProperty', record 3)\<close> on the
  empty booted manager: one state registered under a name of \<open>Object.prototype\<close>.\<close>

definition demo_proto :: manager where
  "demo_proto = snd (add demo_collab (Some ''__proto__'') (SObject 3) None demo0)"

definition demo_hop :: manager where
  "demo_hop = snd (add demo_collab (Some ''hasOwnProperty'') (SObject 3) None demo0)"

subsection \<open>Replaying a queue, as the specification words it\<close>

text \<open>
  "Drains the Boot Deferral Queue in insertion order, calling add for each buffered
  entry with its original key/source/autoStart, then clears the queue", with the
  error of a failing \<open>add\<close> ending the replay. This is the specification's reading of
  \<open>boot\<close>, to be compared with \<open>boot_loop\<close>.
\<close>

fun replay_in_order ::
  "collab \<Rightarrow> pending list \<Rightarrow> manager \<Rightarrow> (error + unit) \<times> manager" where
  "replay_in_order C [] s = (Inr (), s\<lparr>pending := []\<rparr>)"
| "replay_in_order C (entry # es) s =
     (case add C (p_key entry) (p_state entry) (Some (p_autoStart entry)) s of
        (Inl e, s') \<Rightarrow> (Inl e, s')
      | (Inr v, s') \<Rightarrow> replay_in_order C es s')"

section \<open>Properties\<close>

subsection \<open>What each primitive changes\<close>

lemma upd_state_sel [simp]:
  "game (upd_state r f s) = game s" "keys (upd_state r f s) = keys s"
  "keys_proto (upd_state r f s) = keys_proto s"
  "states (upd_state r f s) = states s" "active (upd_state r f s) = active s"
  "pending (upd_state r f s) = pending s" "next_ref (upd_state r f s) = next_ref s"
  "configs (upd_state r f s) = configs s" "trace (upd_state r f s) = trace s"
  "heap (upd_state r f s) r' = (if r' = r then f (heap s r) else heap s r')"
  by (simp_all add: upd_state_def)

lemma log_sel [simp]:
  "game (log e s) = game s" "keys (log e s) = keys s"
  "keys_proto (log e s) = keys_proto s"
  "states (log e s) = states s" "active (log e s) = active s"
  "pending (log e s) = pending s" "next_ref (log e s) = next_ref s"
  "configs (log e s) = configs s" "trace (log e s) = trace s @ [e]"
  "heap (log e s) = heap s"
  by (simp_all add: log_def)

lemma enqueue_sel [simp]:
  "hooks (enqueue n st) = hooks st" "settings (enqueue n st) = settings st"
  "props (enqueue n st) = props st"
  "is_State (enqueue n st) = is_State st"
  "load (sys (enqueue n st)) = map_option (\<lambda>l. l\<lparr>list_size := list_size l + n\<rparr>) (load (sys st))"
  "mainloop_running (sys (enqueue n st)) = mainloop_running (sys st)"
  by (simp_all add: enqueue_def split: option.split)

lemma call_hook_sel [simp]:
  "game (call_hook r h s) = game s" "keys (call_hook r h s) = keys s"
  "keys_proto (call_hook r h s) = keys_proto s"
  "states (call_hook r h s) = states s" "active (call_hook r h s) = active s"
  "pending (call_hook r h s) = pending s" "next_ref (call_hook r h s) = next_ref s"
  "configs (call_hook r h s) = configs s" "trace (call_hook r h s) = trace s @ [Call r h]"
  by (simp_all add: call_hook_def split: hook.split)

lemma call_hook_heap:
  "heap (call_hook r h s) r' =
     (if r' = r then (case hooks (heap s r) h of Fn n \<Rightarrow> enqueue n (heap s r) | _ \<Rightarrow> heap s r)
      else heap s r')"
  by (simp add: call_hook_def split: hook.split)

lemma call_hook_heap_sel [simp]:
  "hooks (heap (call_hook r h s) r') = hooks (heap s r')"
  "settings (heap (call_hook r h s) r') = settings (heap s r')"
  "props (heap (call_hook r h s) r') = props (heap s r')"
  by (simp_all add: call_hook_heap split: hook.split)

lemma call_hook_load [simp]:
  "load (sys (heap (call_hook r h s) r')) =
     (if r' = r then (case hooks (heap s r) h of
                        Fn n \<Rightarrow> map_option (\<lambda>l. l\<lparr>list_size := list_size l + n\<rparr>) (load (sys (heap s r)))
                      | _ \<Rightarrow> load (sys (heap s r)))
      else load (sys (heap s r')))"
  by (simp add: call_hook_heap split: hook.split)

lemma call_hook_heap_other [simp]: "r' \<noteq> r \<Longrightarrow> heap (call_hook r h s) r' = heap s r'"
  by (simp add: call_hook_heap)

lemma loader_sel [simp]:
  "game (loader_reset r s) = game s" "keys (loader_reset r s) = keys s"
  "keys_proto (loader_reset r s) = keys_proto s"
  "states (loader_reset r s) = states s" "active (loader_reset r s) = active s"
  "pending (loader_reset r s) = pending s" "next_ref (loader_reset r s) = next_ref s"
  "configs (loader_reset r s) = configs s" "trace (loader_reset r s) = trace s @ [LoaderReset r]"
  "game (loader_once r s) = game s" "keys (loader_once r s) = keys s"
  "keys_proto (loader_once r s) = keys_proto s"
  "states (loader_once r s) = states s" "active (loader_once r s) = active s"
  "pending (loader_once r s) = pending s" "next_ref (loader_once r s) = next_ref s"
  "configs (loader_once r s) = configs s" "trace (loader_once r s) = trace s @ [LoaderOnce r]"
  "game (loader_start r s) = game s" "keys (loader_start r s) = keys s"
  "keys_proto (loader_start r s) = keys_proto s"
  "states (loader_start r s) = states s" "active (loader_start r s) = active s"
  "pending (loader_start r s) = pending s" "next_ref (loader_start r s) = next_ref s"
  "configs (loader_start r s) = configs s" "trace (loader_start r s) = trace s @ [LoaderStart r]"
  "heap (loader_start r s) = heap s"
  by (simp_all add: loader_reset_def loader_once_def loader_start_def)

lemma loader_reset_heap [simp]:
  "hooks (heap (loader_reset r s) r') = hooks (heap s r')"
  "props (heap (loader_reset r s) r') = props (heap s r')"
  "settings (heap (loader_reset r s) r') = settings (heap s r')"
  "load (sys (heap (loader_reset r s) r')) =
     (if r' = r then map_option (\<lambda>l. l\<lparr>list_size := 0\<rparr>) (load (sys (heap s r)))
      else load (sys (heap s r')))"
  "r' \<noteq> r \<Longrightarrow> heap (loader_reset r s) r' = heap s r'"
  by (simp_all add: loader_reset_def split: option.split)

lemma loader_once_heap [simp]:
  "hooks (heap (loader_once r s) r') = hooks (heap s r')"
  "props (heap (loader_once r s) r') = props (heap s r')"
  "settings (heap (loader_once r s) r') = settings (heap s r')"
  "load (sys (heap (loader_once r s) r')) =
     (if r' = r then map_option (\<lambda>l. l\<lparr>once_listeners := Suc (once_listeners l)\<rparr>) (load (sys (heap s r)))
      else load (sys (heap s r')))"
  "r' \<noteq> r \<Longrightarrow> heap (loader_once r s) r' = heap s r'"
  by (simp_all add: loader_once_def split: option.split)

lemma mainloop_step_sel [simp]:
  "heap (mainloop_step r t s) = heap s" "trace (mainloop_step r t s) = trace s @ [MainloopStep r t]"
  by (simp_all add: mainloop_step_def)

lemma sys_init_sel [simp]:
  "game (sys_init r s) = game s" "keys (sys_init r s) = keys s"
  "keys_proto (sys_init r s) = keys_proto s"
  "states (sys_init r s) = states s" "active (sys_init r s) = active s"
  "pending (sys_init r s) = pending s" "next_ref (sys_init r s) = next_ref s"
  "configs (sys_init r s) = configs s" "trace (sys_init r s) = trace s @ [SysInit r]"
  "heap (sys_init r s) = heap s"
  by (simp_all add: sys_init_def)

lemma createStateFrameBuffer_sel [simp]:
  "game (createStateFrameBuffer r s) = game s" "keys (createStateFrameBuffer r s) = keys s"
  "keys_proto (createStateFrameBuffer r s) = keys_proto s"
  "states (createStateFrameBuffer r s) = states s" "active (createStateFrameBuffer r s) = active s"
  "pending (createStateFrameBuffer r s) = pending s"
  "next_ref (createStateFrameBuffer r s) = next_ref s"
  "configs (createStateFrameBuffer r s) = configs s"
  "settings_key (settings (heap (createStateFrameBuffer r s) r')) = settings_key (settings (heap s r'))"
  by (simp_all add: createStateFrameBuffer_def Let_def)

lemma setupCallbacks_sel [simp]:
  "game (setupCallbacks r f s) = game s" "keys (setupCallbacks r f s) = keys s"
  "keys_proto (setupCallbacks r f s) = keys_proto s"
  "states (setupCallbacks r f s) = states s" "active (setupCallbacks r f s) = active s"
  "pending (setupCallbacks r f s) = pending s" "next_ref (setupCallbacks r f s) = next_ref s"
  "configs (setupCallbacks r f s) = configs s"
  "settings (heap (setupCallbacks r f s) r') = settings (heap s r')"
  by (simp_all add: setupCallbacks_def)

subsection \<open>Comparisons that can never succeed\<close>

text \<open>A string is never strictly equal to a state object, and a record of the active
  list is never strictly equal to a state object.\<close>

lemma getActiveStateIndex_loop_string:
  "getActiveStateIndex_loop as (JString k) = -1"
  by (induction as) simp_all

lemma pause_string_key: "pause key s = (Inr (), s)"
  by (simp add: pause_def getActiveStateIndex_def getActiveStateIndex_loop_string)

lemma indexOf_from_records: "indexOf_from i (map JRecord as) (JState r) = -1"
  by (induction as arbitrary: i) simp_all

lemma isActive_of_state: "getState key s = JState r \<Longrightarrow> isActive key s = Inr (JBool False)"
  by (simp add: isActive_def indexOf_def indexOf_from_records)

lemma isActive_falsy:
  assumes "isActive key s = Inr a"
  shows "\<not> truthy a"
proof -
  define v where "v = getState key s"
  have "(case v of
           JState r \<Rightarrow>
             Inr (if \<not> settings_active (settings (heap s r)) then JBool False
                  else JBool (indexOf (map JRecord (active s)) (JState r) \<noteq> -1))
         | state \<Rightarrow> if truthy state then Inl TypeError else Inr state) = Inr a"
    using assms unfolding isActive_def v_def .
  then show ?thesis
    by (cases v) (auto simp add: indexOf_def indexOf_from_records split: if_splits)
qed

subsection \<open>Sorting the active list\<close>

lemma set_insert_by: "set (insert_by cmp x xs) = insert x (set xs)"
  by (induction xs) auto

lemma set_sort_by: "set (sort_by cmp xs) = set xs"
  by (induction xs) (simp_all add: sort_by_def set_insert_by)

lemma sorted_insert_by:
  "sorted (map ar_index xs) \<Longrightarrow> sorted (map ar_index (insert_by sortStates x xs))"
  by (induction xs) (auto simp: sortStates_def set_insert_by split: if_splits)

lemma sorted_sort_by: "sorted (map ar_index (sort_by sortStates xs))"
  by (induction xs) (simp_all add: sort_by_def sorted_insert_by)

subsection \<open>The create phase and \<open>start\<close>\<close>

lemma startCreate_sel [simp]:
  "keys (startCreate r s) = keys s"
  "keys_proto (startCreate r s) = keys_proto s" "states (startCreate r s) = states s"
  "game (startCreate r s) = game s" "pending (startCreate r s) = pending s"
  "configs (startCreate r s) = configs s" "next_ref (startCreate r s) = next_ref s"
  by (simp_all add: startCreate_def Let_def mainloop_start_def)

lemma startCreate_heap [simp]:
  "hooks (heap (startCreate r s) r') = hooks (heap s r')"
  "props (heap (startCreate r s) r') = props (heap s r')"
  "r' \<noteq> r \<Longrightarrow> heap (startCreate r s) r' = heap s r'"
  by (simp_all add: startCreate_def Let_def mainloop_start_def)

lemma startCreate_settings [simp]:
  "settings (heap (startCreate r s) r') = settings (heap s r')"
  by (simp add: startCreate_def Let_def mainloop_start_def)

lemma startCreate_active:
  "active (startCreate r s) =
     sort_by sortStates (active s @ [\<lparr>ar_index = getStateIndex (JState r) s, ar_state = r\<rparr>])"
  by (simp add: startCreate_def Let_def mainloop_start_def getStateIndex_def)

lemma startCreate_trace:
  "trace (startCreate r s) =
     trace s @ (if hooks (heap s r) Create \<noteq> Absent then [Call r Create] else []) @ [MainloopStart r]"
  by (simp add: startCreate_def Let_def mainloop_start_def)

lemma loadComplete_active:
  "active (loadComplete r s) =
     sort_by sortStates (active s @ [\<lparr>ar_index = getStateIndex (JState r) s, ar_state = r\<rparr>])"
  by (simp add: loadComplete_def startCreate_active getStateIndex_def)

lemma loadComplete_trace:
  "trace (loadComplete r s) =
     trace s
     @ (if hooks (heap s r) LoadUpdate \<noteq> Absent then [Call r LoadUpdate] else [])
     @ (if hooks (heap s r) Create \<noteq> Absent then [Call r Create] else [])
     @ [MainloopStart r]"
  by (simp add: loadComplete_def startCreate_trace)

lemma loadComplete_sorted: "sorted (map ar_index (active (loadComplete r s)))"
  by (simp add: loadComplete_active sorted_sort_by)

lemma start_state_sel [simp]:
  "keys (start_state r s) = keys s" "keys_proto (start_state r s) = keys_proto s"
  "states (start_state r s) = states s"
  "game (start_state r s) = game s" "configs (start_state r s) = configs s"
  "next_ref (start_state r s) = next_ref s" "pending (start_state r s) = pending s"
  by (simp_all add: start_state_def Let_def)

lemma start_state_hooks [simp]:
  "hooks (heap (start_state r s) r') = hooks (heap s r')"
  "props (heap (start_state r s) r') = props (heap s r')"
  by (simp_all add: start_state_def Let_def)

lemma start_state_settings_key [simp]:
  "settings_key (settings (heap (start_state r s) r')) = settings_key (settings (heap s r'))"
  by (simp add: start_state_def Let_def startCreate_def mainloop_start_def)

lemma start_state_active_flag: "settings_active (settings (heap (start_state r s) r))"
  by (simp add: start_state_def Let_def)

lemma start_state_sorted:
  "sorted (map ar_index (active s)) \<Longrightarrow> sorted (map ar_index (active (start_state r s)))"
  by (simp add: start_state_def Let_def startCreate_active sorted_sort_by)

lemma start_of_state:
  "isBooted (game s) \<Longrightarrow> getState key s = JState r \<Longrightarrow> start key s = (Inr (), start_state r s)"
  by (simp add: start_def Let_def isActive_of_state)

text \<open>\<open>start\<close> either changes nothing but the queue (before boot), or changes
  nothing at all, or does what \<open>start_state\<close> does.\<close>

lemma start_cases:
  "snd (start key s) = s
   \<or> (\<not> isBooted (game s) \<and>
       snd (start key s) =
         s\<lparr>pending := map (\<lambda>entry. if p_key entry = Some key
                                    then entry\<lparr>p_autoStart := True\<rparr> else entry) (pending s)\<rparr>)
   \<or> (\<exists>r. isBooted (game s) \<and> getState key s = JState r
            \<and> start key s = (Inr (), start_state r s))"
  by (cases "getState key s")
    (auto simp add: start_def Let_def isActive_def indexOf_def indexOf_from_records)

lemma start_sel [simp]:
  "keys (snd (start key s)) = keys s" "keys_proto (snd (start key s)) = keys_proto s"
  "states (snd (start key s)) = states s"
  "game (snd (start key s)) = game s" "configs (snd (start key s)) = configs s"
  "next_ref (snd (start key s)) = next_ref s"
  using start_cases [of key s] by auto

lemma start_hooks [simp]:
  "hooks (heap (snd (start key s)) r') = hooks (heap s r')"
  "props (heap (snd (start key s)) r') = props (heap s r')"
  using start_cases [of key s] by auto

lemma start_getState [simp]: "getState k (snd (start key s)) = getState k s"
  by (simp add: getState_def inherited_def split: option.split)

lemma start_settings_key [simp]:
  "settings_key (settings (heap (snd (start key s)) r'))
     = settings_key (settings (heap s r'))"
  using start_cases [of key s] by auto

lemma start_pending_booted [simp]:
  "isBooted (game s) \<Longrightarrow> pending (snd (start key s)) = pending s"
  using start_cases [of key s] by auto

lemma start_sorted:
  "sorted (map ar_index (active s)) \<Longrightarrow> sorted (map ar_index (active (snd (start key s))))"
  using start_cases [of key s] by (auto simp add: start_state_sorted)

lemma start_state_no_preload:
  assumes "hooks (heap s r) Preload = Absent \<or> hooks (heap s r) Preload = NOOP"
  shows "active (start_state r s) =
           sort_by sortStates (active s @ [\<lparr>ar_index = getStateIndex (JState r) s, ar_state = r\<rparr>])"
    and "trace (start_state r s) =
           trace s
           @ (if hooks (heap s r) Init \<noteq> Absent then [Call r Init] else [])
           @ (if hooks (heap s r) Preload = NOOP \<and> load (sys (heap s r)) \<noteq> None
              then [LoaderReset r, Call r Preload] else [])
           @ (if hooks (heap s r) Create \<noteq> Absent then [Call r Create] else [])
           @ [MainloopStart r]"
  using assms
  by (auto simp add: start_state_def Let_def startCreate_active startCreate_trace
        getStateIndex_def split: hook.split)

lemma start_state_with_preload:
  assumes "hooks (heap s r) Preload = Fn n" and "0 < n"
    and "load (sys (heap s r)) = Some l"
  shows "active (start_state r s) = active s"
    and "load (sys (heap (start_state r s) r)) =
           Some (l\<lparr>list_size := n, once_listeners := Suc (once_listeners l)\<rparr>)"
    and "trace (start_state r s) =
           trace s
           @ (if hooks (heap s r) Init \<noteq> Absent then [Call r Init] else [])
           @ [LoaderReset r, Call r Preload, LoaderOnce r, LoaderStart r]"
  using assms
  by (auto simp add: start_state_def Let_def split: hook.split)

lemma start_no_preload:
  assumes "isBooted (game s)" and "getState key s = JState r"
    and "hooks (heap s r) Preload = Absent \<or> hooks (heap s r) Preload = NOOP"
  shows "fst (start key s) = Inr ()"
    and "active (snd (start key s)) =
           sort_by sortStates (active s @ [\<lparr>ar_index = getStateIndex (JState r) s, ar_state = r\<rparr>])"
    and "trace (snd (start key s)) =
           trace s
           @ (if hooks (heap s r) Init \<noteq> Absent then [Call r Init] else [])
           @ (if hooks (heap s r) Preload = NOOP \<and> load (sys (heap s r)) \<noteq> None
              then [LoaderReset r, Call r Preload] else [])
           @ (if hooks (heap s r) Create \<noteq> Absent then [Call r Create] else [])
           @ [MainloopStart r]"
  using start_state_no_preload [OF assms(3)] start_of_state [OF assms(1,2)] by simp_all

lemma start_with_preload:
  assumes "isBooted (game s)" and "getState key s = JState r"
    and "hooks (heap s r) Preload = Fn n" and "0 < n"
    and "load (sys (heap s r)) = Some l"
  shows "fst (start key s) = Inr ()"
    and "active (snd (start key s)) = active s"
    and "load (sys (heap (snd (start key s)) r)) =
           Some (l\<lparr>list_size := n, once_listeners := Suc (once_listeners l)\<rparr>)"
    and "trace (snd (start key s)) =
           trace s
           @ (if hooks (heap s r) Init \<noteq> Absent then [Call r Init] else [])
           @ [LoaderReset r, Call r Preload, LoaderOnce r, LoaderStart r]"
  using start_state_with_preload [OF assms(3-5)] start_of_state [OF assms(1,2)] by simp_all

lemma three_states_in_order:
  assumes booted: "isBooted (game s)"
    and reg: "states s = [Some a, Some b, Some c]" "distinct [a, b, c]"
    and empty: "active s = []"
    and k: "getState k1 s = JState r1" "getState k2 s = JState r2" "getState k3 s = JState r3"
    and perm: "distinct [r1, r2, r3]" "set [r1, r2, r3] = {a, b, c}"
    and np: "\<And>r. r \<in> {a, b, c} \<Longrightarrow>
               hooks (heap s r) Preload = Absent \<or> hooks (heap s r) Preload = NOOP"
  shows "fst (start k1 s) = Inr ()"
    and "fst (start k2 (snd (start k1 s))) = Inr ()"
    and "fst (start k3 (snd (start k2 (snd (start k1 s))))) = Inr ()"
    and "active (snd (start k3 (snd (start k2 (snd (start k1 s)))))) =
           [\<lparr>ar_index = 0, ar_state = a\<rparr>, \<lparr>ar_index = 1, ar_state = b\<rparr>,
            \<lparr>ar_index = 2, ar_state = c\<rparr>]"
proof -
  let ?x = "\<lambda>r. \<lparr>ar_index = getStateIndex (JState r) s, ar_state = r\<rparr>"
  let ?s1 = "snd (start k1 s)"
  let ?s2 = "snd (start k2 ?s1)"
  have in3: "r1 \<in> {a, b, c}" "r2 \<in> {a, b, c}" "r3 \<in> {a, b, c}"
    using perm(2) by auto
  note n1 = start_no_preload [OF booted k(1) np [OF in3(1)]]
  show "fst (start k1 s) = Inr ()" by (rule n1(1))
  have a1: "active ?s1 = sort_by sortStates ([] @ [?x r1])"
    using n1(2) empty by simp
  have k2: "getState k2 ?s1 = JState r2" using k(2) by simp
  have np2: "hooks (heap ?s1 r2) Preload = Absent \<or> hooks (heap ?s1 r2) Preload = NOOP"
    using np [OF in3(2)] by simp
  have b1: "isBooted (game ?s1)" using booted by simp
  note n2 = start_no_preload [OF b1 k2 np2]
  show "fst (start k2 ?s1) = Inr ()" by (rule n2(1))
  have a2: "active ?s2 = sort_by sortStates (active ?s1 @ [?x r2])"
    using n2(2) by (simp add: getStateIndex_def)
  have k3: "getState k3 ?s2 = JState r3" using k(3) by simp
  have np3: "hooks (heap ?s2 r3) Preload = Absent \<or> hooks (heap ?s2 r3) Preload = NOOP"
    using np [OF in3(3)] by simp
  have b2: "isBooted (game ?s2)" using booted by simp
  note n3 = start_no_preload [OF b2 k3 np3]
  show "fst (start k3 ?s2) = Inr ()" by (rule n3(1))
  have a3: "active (snd (start k3 ?s2)) = sort_by sortStates (active ?s2 @ [?x r3])"
    using n3(2) by (simp add: getStateIndex_def)
  have ix: "getStateIndex (JState a) s = 0" "getStateIndex (JState b) s = 1"
    "getStateIndex (JState c) s = 2"
    using reg by (simp_all add: getStateIndex_def indexOf_def of_state_def)
  have cases: "(r1 = a \<and> r2 = b \<and> r3 = c) \<or> (r1 = a \<and> r2 = c \<and> r3 = b)
      \<or> (r1 = b \<and> r2 = a \<and> r3 = c) \<or> (r1 = b \<and> r2 = c \<and> r3 = a)
      \<or> (r1 = c \<and> r2 = a \<and> r3 = b) \<or> (r1 = c \<and> r2 = b \<and> r3 = a)"
    using in3 perm(1) by auto
  then show "active (snd (start k3 ?s2)) =
           [\<lparr>ar_index = 0, ar_state = a\<rparr>, \<lparr>ar_index = 1, ar_state = b\<rparr>,
            \<lparr>ar_index = 2, ar_state = c\<rparr>]"
    unfolding a3 a2 a1
    by (elim disjE conjE) (simp_all add: ix sort_by_def sortStates_def)
qed

lemma step_loop_eq:
  "step_loop t as s =
     s\<lparr>trace := trace s @ map (\<lambda>a. MainloopStep (ar_state a) t)
                            (filter (\<lambda>a. mainloop_running (sys (heap s (ar_state a)))) as)\<rparr>"
proof (induction as arbitrary: s)
  case Nil
  show ?case by simp
next
  case (Cons a as)
  show ?case
  proof (cases "mainloop_running (sys (heap s (ar_state a)))")
    case True
    then show ?thesis by (simp add: Cons.IH) (simp add: mainloop_step_def log_def)
  next
    case False
    then show ?thesis by (simp add: Cons.IH)
  qed
qed

lemma step_visits_running_records:
  "step t s =
     s\<lparr>trace := trace s @ map (\<lambda>a. MainloopStep (ar_state a) t)
                            (filter (\<lambda>a. mainloop_running (sys (heap s (ar_state a)))) (active s))\<rparr>"
  by (simp add: step_def step_loop_eq)

subsection \<open>Registration\<close>

lemma createStateFromInstance_sel [simp]:
  "fst (createStateFromInstance key r s) = r"
  "game (snd (createStateFromInstance key r s)) = game s"
  "keys (snd (createStateFromInstance key r s)) = keys s"
  "keys_proto (snd (createStateFromInstance key r s)) = keys_proto s"
  "states (snd (createStateFromInstance key r s)) = states s"
  "active (snd (createStateFromInstance key r s)) = active s"
  "pending (snd (createStateFromInstance key r s)) = pending s"
  "configs (snd (createStateFromInstance key r s)) = configs s"
  by (simp_all add: createStateFromInstance_def Let_def)

lemma createStateFromObject_sel [simp]:
  "fst (createStateFromObject C key c s) = next_ref s"
  "game (snd (createStateFromObject C key c s)) = game s"
  "keys (snd (createStateFromObject C key c s)) = keys s"
  "keys_proto (snd (createStateFromObject C key c s)) = keys_proto s"
  "states (snd (createStateFromObject C key c s)) = states s"
  "active (snd (createStateFromObject C key c s)) = active s"
  "pending (snd (createStateFromObject C key c s)) = pending s"
  "configs (snd (createStateFromObject C key c s)) = configs s"
  by (simp_all add: createStateFromObject_def alloc_def Let_def)

lemma createStateFromFunction_sel [simp]:
  "fst (createStateFromFunction C key f s) = next_ref s"
  "game (snd (createStateFromFunction C key f s)) = game s"
  "keys (snd (createStateFromFunction C key f s)) = keys s"
  "keys_proto (snd (createStateFromFunction C key f s)) = keys_proto s"
  "states (snd (createStateFromFunction C key f s)) = states s"
  "active (snd (createStateFromFunction C key f s)) = active s"
  "pending (snd (createStateFromFunction C key f s)) = pending s"
  "configs (snd (createStateFromFunction C key f s)) = configs s"
  by (simp_all add: createStateFromFunction_def alloc_def Let_def)

lemma createStateFromObject_settings_key:
  "n = next_ref s \<Longrightarrow>
   settings_key (settings (heap (snd (createStateFromObject C key c s)) n)) =
   settings_key (settings (State_ctor C (configs s c)))"
  by (simp add: createStateFromObject_def alloc_def Let_def)

lemma keys_put_sel [simp]:
  "game (keys_put key v s) = game s" "states (keys_put key v s) = states s"
  "active (keys_put key v s) = active s" "pending (keys_put key v s) = pending s"
  "next_ref (keys_put key v s) = next_ref s" "configs (keys_put key v s) = configs s"
  "trace (keys_put key v s) = trace s" "heap (keys_put key v s) = heap s"
  by (simp_all add: keys_put_def split: option.split)

lemma keys_put_keys:
  "keys (keys_put key v s) = (if key = ''__proto__'' then keys s else (keys s)(key \<mapsto> v))"
  "keys_proto (keys_put key v s) =
     (if key = ''__proto__'' then (case v of None \<Rightarrow> keys_proto s | Some r \<Rightarrow> Some r)
      else keys_proto s)"
  by (simp_all add: keys_put_def split: option.split)

text \<open>What \<open>register\<close> returns, source by source.\<close>

lemma register_result:
  "register C key (SInstance r) s = Inr (v, s3) \<longleftrightarrow>
     v = Some r \<and>
     s3 = (keys_put key (Some r) (snd (createStateFromInstance key r s)))
            \<lparr>states := states s @ [Some r]\<rparr>"
  "register C key (SObject c) s = Inr (v, s3) \<longleftrightarrow>
     v = Some (next_ref s) \<and>
     s3 = (keys_put key (Some (next_ref s))
             (snd (createStateFromObject C key c
                (s\<lparr>configs := (configs s)(c := (configs s c)\<lparr>cfg_key := Some key\<rparr>)\<rparr>))))
            \<lparr>states := states s @ [Some (next_ref s)]\<rparr>"
  "register C key (SFunction f) s = Inr (v, s3) \<longleftrightarrow>
     v = Some (next_ref s) \<and>
     s3 = (keys_put key (Some (next_ref s)) (snd (createStateFromFunction C key f s)))
            \<lparr>states := states s @ [Some (next_ref s)]\<rparr>"
  "register C key SOther s = Inr (v, s3) \<longleftrightarrow>
     v = None \<and> s3 = (keys_put key None s)\<lparr>states := states s @ [None]\<rparr>"
  "register C key SNull s = Inl TypeError"
  by (auto simp add: register_def Let_def split_beta)

lemma register_frame:
  assumes "register C key src s = Inr (v, s3)"
  shows "game s3 = game s" and "pending s3 = pending s" and "active s3 = active s"
    and "states s3 = states s @ [v]"
    and "keys s3 = (if key = ''__proto__'' then keys s else (keys s)(key \<mapsto> v))"
    and "keys_proto s3 =
           (if key = ''__proto__'' then (case v of None \<Rightarrow> keys_proto s | Some r \<Rightarrow> Some r)
            else keys_proto s)"
  using assms by (cases src; simp add: register_result keys_put_keys)+

lemma register_getState:
  assumes "register C key src s = Inr (Some n, s3)" and "keys s key = None"
  shows "getState key s3 = JState n"
  using register_frame(5,6) [OF assms(1)] assms(2)
  by (auto simp add: getState_def inherited_def of_state_def)

text \<open>What \<open>add\<close> is once \<open>getKey\<close> and \<open>register\<close> have returned a state object:
  the registration, followed by \<open>start_state\<close> when the state is to be started.\<close>

lemma add_registered:
  assumes "isBooted (game s)" and "getKey key0 src s = Inr key"
    and "register C key src s = Inr (Some n, s3)"
  shows "add C key0 src a s =
           (Inr (Some n),
            if a = Some True \<or> settings_active (settings (heap s3 n))
            then start_state n s3 else s3)"
proof -
  have free: "keys s key = None"
    using assms(2) by (auto simp add: getKey_def split: sum.splits if_splits)
  have b3: "isBooted (game s3)" using register_frame(1) [OF assms(3)] assms(1) by simp
  have st: "start key s3 = (Inr (), start_state n s3)"
    using start_of_state [OF b3 register_getState [OF assms(3) free]] .
  show ?thesis
    using assms b3 st by (cases a) (auto simp add: add_def Let_def)
qed

lemma add_booted_frame:
  assumes "isBooted (game s)"
  shows "game (snd (add C key0 src a s)) = game s"
    and "pending (snd (add C key0 src a s)) = pending s"
proof -
  have "game (snd (add C key0 src a s)) = game s \<and> pending (snd (add C key0 src a s)) = pending s"
  proof (cases "getKey key0 src s")
    case (Inl e)
    then show ?thesis using assms by (simp add: add_def)
  next
    case (Inr key)
    show ?thesis
    proof (cases "register C key src s")
      case (Inl e)
      then show ?thesis using assms Inr by (simp add: add_def)
    next
      case r: (Inr p)
      obtain v s3 where p: "p = (v, s3)" by (cases p)
      note f = register_frame(1,2) [OF r [unfolded p]]
      show ?thesis
        using assms Inr r p f
        by (auto simp add: add_def Let_def split_beta split: option.split)
    qed
  qed
  then show "game (snd (add C key0 src a s)) = game s"
    and "pending (snd (add C key0 src a s)) = pending s" by simp_all
qed

lemma add_registry:
  assumes "isBooted (game s)" and "add C key0 src a s = (Inr v, s')"
  shows "\<exists>key. getKey key0 src s = Inr key
           \<and> states s' = states s @ [v]
           \<and> keys s' = (if key = ''__proto__'' then keys s else (keys s)(key \<mapsto> v))
           \<and> keys_proto s' =
               (if key = ''__proto__''
                then (case v of None \<Rightarrow> keys_proto s | Some r \<Rightarrow> Some r)
                else keys_proto s)"
proof (cases "getKey key0 src s")
  case (Inl e)
  then show ?thesis using assms by (simp add: add_def)
next
  case (Inr key)
  show ?thesis
  proof (cases "register C key src s")
    case (Inl e)
    then show ?thesis using assms Inr by (simp add: add_def)
  next
    case r: (Inr p)
    obtain w s3 where p: "p = (w, s3)" by (cases p)
    note f = register_frame [OF r [unfolded p]]
    have "v = w \<and> (s' = s3 \<or> s' = snd (start key s3))"
      using assms Inr r p
      by (auto simp add: add_def Let_def split_beta split: option.splits sum.splits if_splits)
    then show ?thesis using Inr f by auto
  qed
qed

lemma add_sorted:
  "sorted (map ar_index (active s)) \<Longrightarrow> sorted (map ar_index (active (snd (add C key0 src a s))))"
proof (cases "isBooted (game s)")
  case False
  assume "sorted (map ar_index (active s))"
  then show ?thesis using False by (simp add: add_def Let_def)
next
  case True
  assume srt: "sorted (map ar_index (active s))"
  show ?thesis
  proof (cases "getKey key0 src s")
    case (Inl e)
    then show ?thesis using True srt by (simp add: add_def)
  next
    case (Inr key)
    show ?thesis
    proof (cases "register C key src s")
      case (Inl e)
      then show ?thesis using True Inr srt by (simp add: add_def)
    next
      case r: (Inr p)
      obtain w s3 where p: "p = (w, s3)" by (cases p)
      have s3: "sorted (map ar_index (active s3))"
        using register_frame(3) [OF r [unfolded p]] srt by simp
      show ?thesis
        using True Inr r p s3 start_sorted [OF s3, of key]
        by (auto simp add: add_def Let_def split_beta split: option.split)
    qed
  qed
qed

lemma add_states:
  assumes "isBooted (game s)" and "add C key0 src a s = (Inr v, s')"
  shows "states s' = states s @ [v]"
  using add_registry [OF assms] by auto

lemma getKey_resolved:
  assumes "getKey key0 src s = Inr key"
  shows "key = (case src of
                  SInstance r \<Rightarrow> settings_key (settings (heap s r))
                | SObject c \<Rightarrow>
                    (case cfg_key (configs s c) of
                       Some k \<Rightarrow> k
                     | None \<Rightarrow> (case key0 of None \<Rightarrow> ''default''
                                           | Some k \<Rightarrow> if k = [] then ''default'' else k))
                | _ \<Rightarrow> (case key0 of None \<Rightarrow> ''default''
                                    | Some k \<Rightarrow> if k = [] then ''default'' else k))"
  using assms
  by (auto simp add: getKey_def resolveKey_def Let_def
        split: sum.splits source.splits option.splits if_splits)

lemma add_duplicate:
  assumes "isBooted (game s)"
    and "resolveKey key0 stateConfig s = Inr k"
    and "keys s ''hasOwnProperty'' = None"
    and "keys s k \<noteq> None"
  shows "add C key0 stateConfig autoStart s = (Inl (DuplicateKeyError k), s)"
  using assms by (simp add: add_def getKey_def)

lemma add_object_mutates_record:
  assumes "isBooted (game s)"
    and "getKey key0 (SObject c) s = Inr k"
  shows "fst (add C key0 (SObject c) a s) = Inr (Some (next_ref s))"
    and "configs (snd (add C key0 (SObject c) a s)) = (configs s)(c := (configs s c)\<lparr>cfg_key := Some k\<rparr>)"
    and "settings_key (settings (heap (snd (add C key0 (SObject c) a s)) (next_ref s))) =
         settings_key (settings (State_ctor C ((configs s c)\<lparr>cfg_key := Some k\<rparr>)))"
proof -
  obtain s3 where r: "register C k (SObject c) s = Inr (Some (next_ref s), s3)"
    by (simp add: register_result)
  have s3: "s3 = (keys_put k (Some (next_ref s))
             (snd (createStateFromObject C k c
                (s\<lparr>configs := (configs s)(c := (configs s c)\<lparr>cfg_key := Some k\<rparr>)\<rparr>))))
            \<lparr>states := states s @ [Some (next_ref s)]\<rparr>"
    using r by (simp add: register_result)
  note a = add_registered [OF assms r, of a]
  show "fst (add C key0 (SObject c) a s) = Inr (Some (next_ref s))" using a by simp
  show "configs (snd (add C key0 (SObject c) a s)) = (configs s)(c := (configs s c)\<lparr>cfg_key := Some k\<rparr>)"
    using a by (simp add: s3)
  show "settings_key (settings (heap (snd (add C key0 (SObject c) a s)) (next_ref s))) =
         settings_key (settings (State_ctor C ((configs s c)\<lparr>cfg_key := Some k\<rparr>)))"
    using a by (simp add: s3 createStateFromObject_settings_key)
qed

subsection \<open>The boot loop\<close>

text \<open>Once the game is booted the loop ends, and it does what the replay in insertion
  order does. Before boot it returns only when the queue is empty.\<close>

lemma boot_loop_replay:
  "isBooted (game s) \<Longrightarrow> boot_loop C i s = Some (replay_in_order C (drop i (pending s)) s)"
proof (induction "length (pending s) - i" arbitrary: i s)
  case 0
  then show ?case by (subst boot_loop.simps) simp
next
  case (Suc n)
  then have lt: "i < length (pending s)" by simp
  let ?e = "pending s ! i"
  obtain res s' where a: "add C (p_key ?e) (p_state ?e) (Some (p_autoStart ?e)) s = (res, s')"
    by (cases "add C (p_key ?e) (p_state ?e) (Some (p_autoStart ?e)) s")
  have fr: "isBooted (game s')" "pending s' = pending s"
    using add_booted_frame [OF Suc.prems, of C "p_key ?e" "p_state ?e" "Some (p_autoStart ?e)"] a
      Suc.prems by simp_all
  have d: "drop i (pending s) = ?e # drop (Suc i) (pending s)"
    using lt by (simp add: Cons_nth_drop_Suc)
  show ?case
  proof (cases res)
    case (Inl e)
    then show ?thesis using lt a d by (subst boot_loop.simps) simp
  next
    case (Inr v)
    have "n = length (pending s') - Suc i" using Suc.hyps(2) fr by simp
    then have "boot_loop C (Suc i) s' = Some (replay_in_order C (drop (Suc i) (pending s')) s')"
      using Suc.hyps(1) fr by blast
    then show ?thesis using lt a d Inr fr by (subst boot_loop.simps) simp
  qed
qed

lemma replay_clears: "replay_in_order C es s = (Inr u, s') \<Longrightarrow> pending s' = []"
  by (induction es arbitrary: s) (auto split: prod.splits sum.splits)

lemma boot_loop_unbooted:
  assumes ret: "boot_loop C i s = Some y"
  shows "isBooted (game s) \<or> length (pending s) \<le> i"
proof (rule boot_loop.raw_induct
    [where P = "\<lambda>C i s y. isBooted (game s) \<or> length (pending s) \<le> i", OF _ ret])
  fix f :: "collab \<Rightarrow> nat \<Rightarrow> manager \<Rightarrow> ((error + unit) \<times> manager) option"
  fix C i s y
  assume IH: "\<And>C i s y. f C i s = Some y \<Longrightarrow> isBooted (game s) \<or> length (pending s) \<le> i"
  assume body:
    "(if i < length (pending s) then
        (let entry = pending s ! i
         in case add C (p_key entry) (p_state entry) (Some (p_autoStart entry)) s of
              (Inl e, s') \<Rightarrow> Some (Inl e, s')
            | (Inr v, s') \<Rightarrow> f C (Suc i) s')
      else Some (Inr (), s\<lparr>pending := []\<rparr>)) = Some y"
  show "isBooted (game s) \<or> length (pending s) \<le> i"
  proof (rule ccontr)
    assume "\<not> (isBooted (game s) \<or> length (pending s) \<le> i)"
    then have nb: "\<not> isBooted (game s)" and lt: "i < length (pending s)" by simp_all
    let ?e = "pending s ! i"
    let ?s' = "s\<lparr>pending := pending s @
                 [\<lparr>p_index = int (length (pending s)), p_key = p_key ?e,
                   p_state = p_state ?e, p_autoStart = p_autoStart ?e\<rparr>]\<rparr>"
    have a: "add C (p_key ?e) (p_state ?e) (Some (p_autoStart ?e)) s = (Inr None, ?s')"
      using nb by (simp add: add_def)
    from body lt a have "f C (Suc i) ?s' = Some y" by (simp add: Let_def)
    from IH [OF this] nb lt show False by simp
  qed
qed

lemma boot_before_boot_never_returns:
  assumes "\<not> isBooted (game s)" and "pending s \<noteq> []"
  shows "boot C s = None"
proof (cases "boot C s")
  case None
  then show ?thesis .
next
  case (Some y)
  then have "isBooted (game s) \<or> length (pending s) \<le> 0"
    unfolding boot_def by (rule boot_loop_unbooted)
  with assms show ?thesis by simp
qed

subsection \<open>The sample world, evaluated\<close>

lemmas model_defs =
  add_def getKey_def resolveKey_def createStateFromObject_def alloc_def Let_def
  upd_state_def sys_init_def log_def setupCallbacks_def GetObjectValue_def start_def
  start_state_def register_def keys_put_def inherited_def Object_prototype_names_def
  getState_def isActive_def indexOf_def loader_reset_def loader_once_def loader_start_def
  call_hook_def startCreate_def getStateIndex_def of_state_def sort_by_def sortStates_def
  mainloop_start_def enqueue_def StateManager_def
  demo_game_def demo_configs_def demo_collab_def blank_state_def

lemma demo_a_facts:
  "isBooted (game demo_a)" "keys demo_a ''a'' = Some (Some 0)" "states demo_a = [Some 0]"
  "active demo_a = [\<lparr>ar_index = 0, ar_state = 0\<rparr>]"
  "settings_active (settings (heap demo_a 0))"
  "hooks (heap demo_a 0) Init = Fn 0" "hooks (heap demo_a 0) Create = Fn 0"
  "hooks (heap demo_a 0) Preload = NOOP"
  "load (sys (heap demo_a 0)) = Some \<lparr>list_size = 0, once_listeners = 0\<rparr>"
  "trace demo_a =
     [SysInit 0, Call 0 Init, LoaderReset 0, Call 0 Preload, Call 0 Create, MainloopStart 0]"
  by (simp_all add: demo_a_def demo0_def model_defs)

lemma demo_a_more:
  "configs demo_a 3 = demo_configs 3" "mainloop_running (sys (heap demo_a 0))"
  "keys demo_a ''hasOwnProperty'' = None"
  by (simp_all add: demo_a_def demo0_def model_defs)

lemma demo0_facts:
  "game demo0 = demo_game" "keys demo0 = Map.empty" "keys_proto demo0 = None"
  "states demo0 = []" "active demo0 = []" "next_ref demo0 = 0" "configs demo0 = demo_configs"
  by (simp_all add: demo0_def StateManager_def)

lemma demo_proto_facts:
  "fst (add demo_collab (Some ''__proto__'') (SObject 3) None demo0) = Inr (Some 0)"
  "game demo_proto = demo_game" "keys demo_proto = Map.empty" "keys_proto demo_proto = Some 0"
  "states demo_proto = [Some 0]" "next_ref demo_proto = 1" "active demo_proto = []"
  "cfg_key (configs demo_proto 3) = Some ''__proto__''"
  by (simp_all add: demo_proto_def demo0_def model_defs)

lemma demo_hop_facts:
  "fst (add demo_collab (Some ''hasOwnProperty'') (SObject 3) None demo0) = Inr (Some 0)"
  "isBooted (game demo_hop)" "keys demo_hop ''hasOwnProperty'' = Some (Some 0)"
  "cfg_key (configs demo_hop 3) = Some ''hasOwnProperty''"
  by (simp_all add: demo_hop_def demo0_def model_defs)

lemma demo_b_facts:
  "isBooted (game demo_b)" "keys demo_b ''b'' = Some (Some 0)" "states demo_b = [Some 0]"
  "active demo_b = []"
  "hooks (heap demo_b 0) Preload = Fn 2" "hooks (heap demo_b 0) LoadUpdate = Absent"
  "hooks (heap demo_b 0) Init = NOOP" "hooks (heap demo_b 0) Create = NOOP"
  "load (sys (heap demo_b 0)) = Some \<lparr>list_size = 0, once_listeners = 0\<rparr>"
  "trace demo_b = [SysInit 0]"
  by (simp_all add: demo_b_def demo0_def model_defs)

lemma demo_reg1_facts:
  "game demo_reg1 = demo_game" "next_ref demo_reg1 = 1"
  "keys demo_reg1 = [''a'' \<mapsto> Some 0]" "states demo_reg1 = [Some 0]" "active demo_reg1 = []"
  "configs demo_reg1 4 = demo_configs 4" "configs demo_reg1 5 = demo_configs 5"
  "hooks (heap demo_reg1 0) Preload = NOOP" "hooks (heap demo_reg1 0) Init = NOOP"
  "hooks (heap demo_reg1 0) Create = NOOP"
  "load (sys (heap demo_reg1 0)) = Some \<lparr>list_size = 0, once_listeners = 0\<rparr>"
  "trace demo_reg1 = [SysInit 0]"
  by (simp_all add: demo_reg1_def demo0_def model_defs)

lemma demo_reg2_facts:
  "game demo_reg2 = demo_game" "next_ref demo_reg2 = 2"
  "keys demo_reg2 = [''a'' \<mapsto> Some 0, ''b'' \<mapsto> Some 1]" "states demo_reg2 = [Some 0, Some 1]"
  "active demo_reg2 = []"
  "configs demo_reg2 5 = demo_configs 5"
  "hooks (heap demo_reg2 0) Preload = NOOP" "hooks (heap demo_reg2 0) Init = NOOP"
  "hooks (heap demo_reg2 0) Create = NOOP"
  "hooks (heap demo_reg2 (Suc 0)) Preload = NOOP"
  "load (sys (heap demo_reg2 0)) = Some \<lparr>list_size = 0, once_listeners = 0\<rparr>"
  "trace demo_reg2 = [SysInit 0, SysInit 1]"
  by (simp_all add: demo_reg2_def demo_reg1_facts model_defs)

lemma demo_abc_facts:
  "isBooted (game demo_abc)"
  "keys demo_abc ''a'' = Some (Some 0)" "keys demo_abc ''b'' = Some (Some 1)"
  "keys demo_abc ''c'' = Some (Some 2)"
  "states demo_abc = [Some 0, Some 1, Some 2]" "active demo_abc = []"
  "hooks (heap demo_abc 0) Preload = NOOP" "hooks (heap demo_abc (Suc 0)) Preload = NOOP"
  "hooks (heap demo_abc 2) Preload = NOOP"
  "hooks (heap demo_abc 0) Init = NOOP" "hooks (heap demo_abc 0) Create = NOOP"
  "load (sys (heap demo_abc 0)) = Some \<lparr>list_size = 0, once_listeners = 0\<rparr>"
  "trace demo_abc = [SysInit 0, SysInit 1, SysInit 2]"
  by (simp_all add: demo_abc_def demo_reg2_facts model_defs)

lemma demo_array_facts:
  "isBooted (game demo_array)"
  "pending demo_array =
     [\<lparr>p_index = 0, p_key = Some ''default'', p_state = SObject 3, p_autoStart = True\<rparr>,
      \<lparr>p_index = 1, p_key = Some ''default'', p_state = SObject 4, p_autoStart = False\<rparr>]"
  by (simp_all add: demo_array_def model_defs upt_rec)

lemma demo_array_more:
  "keys demo_array = Map.empty" "configs demo_array = demo_configs" "states demo_array = []"
  "next_ref demo_array = 0"
  by (simp_all add: demo_array_def StateManager_def)

lemma demo_array1_facts:
  "add demo_collab (Some ''default'') (SObject 3) (Some True) demo_array
     = (Inr (Some 0), demo_array1)"
  "isBooted (game demo_array1)" "pending demo_array1 = pending demo_array"
  "keys demo_array1 ''default'' = Some (Some 0)" "states demo_array1 = [Some 0]"
  "cfg_key (configs demo_array1 4) = None" "keys demo_array1 ''hasOwnProperty'' = None"
proof -
  have g: "getKey (Some ''default'') (SObject 3) demo_array = Inr ''default''"
    by (simp add: getKey_def resolveKey_def demo_array_more demo_configs_def)
  note m = add_object_mutates_record [OF demo_array_facts(1) g, of demo_collab "Some True"]
  show a: "add demo_collab (Some ''default'') (SObject 3) (Some True) demo_array
     = (Inr (Some 0), demo_array1)"
    using m(1) by (simp add: demo_array1_def demo_array_more prod_eq_iff)
  show "isBooted (game demo_array1)" "pending demo_array1 = pending demo_array"
    using add_booted_frame [OF demo_array_facts(1), of demo_collab "Some ''default''" "SObject 3" "Some True"]
    by (simp_all add: demo_array1_def demo_array_facts)
  show "keys demo_array1 ''default'' = Some (Some 0)"
    "keys demo_array1 ''hasOwnProperty'' = None"
    using add_registry [OF demo_array_facts(1) a] g by (auto simp add: demo_array_more)
  show "states demo_array1 = [Some 0]"
    using add_states [OF demo_array_facts(1) a] by (simp add: demo_array_more)
  show "cfg_key (configs demo_array1 4) = None"
    using m(2) by (simp add: demo_array1_def demo_array_more demo_configs_def)
qed

lemma demo_buffered_facts:
  "isBooted (game demo_buffered)"
  "pending demo_buffered =
     [\<lparr>p_index = 0, p_key = Some ''a'', p_state = SObject 3, p_autoStart = True\<rparr>,
      \<lparr>p_index = 1, p_key = Some ''b'', p_state = SObject 4, p_autoStart = False\<rparr>]"
  "keys demo_buffered = Map.empty" "states demo_buffered = []"
  by (simp_all add: demo_buffered_def demo_unbooted_def model_defs)

section \<open>The properties of the specification, C1 to C10\<close>

subsection \<open>C1: pausing an active state\<close>

text \<open>
  C1 says that \<open>pause(key)\<close> on a state that is in the active list with its active
  flag set removes the record of that state and makes \<open>isActive(key)\<close> false, and
  that it changes nothing for a state that is not active. The code does not do the
  first: \<open>pause\<close> passes the key, a string, to \<open>getActiveStateIndex\<close>, which compares
  it with the state objects of the records, so the index is always -1 and \<open>pause\<close>
  returns without touching anything, whatever the key. In the sample world, after
  \<open>add('a', record 0, true)\<close> the state is active, and \<open>pause('a')\<close> leaves the
  manager exactly as it was, the record still in the active list and the flag still set.
\<close>

theorem pause_keeps_active_state:
  "getState ''a'' demo_a = JState 0
   \<and> active demo_a = [\<lparr>ar_index = 0, ar_state = 0\<rparr>]
   \<and> settings_active (settings (heap demo_a 0))
   \<and> pause ''a'' demo_a = (Inr (), demo_a)"
  by (simp add: demo_a_facts getState_def of_state_def pause_string_key)

subsection \<open>C2: starting a state twice\<close>

text \<open>
  C2 says that a second \<open>start(key)\<close> on a started state is a no-op: no hook is
  called and the active list never holds two records of one state. The code does not
  do that: \<open>isActive\<close> looks for the state object among the records of the active
  list, finds nothing, and is never true, so the guard "Already started?" never
  fires. In the sample world the second \<open>start('a')\<close> calls \<open>init\<close> and \<open>create\<close>
  again and leaves two records of state 0 in the active list.
\<close>

theorem second_start_runs_again:
  "active demo_a = [\<lparr>ar_index = 0, ar_state = 0\<rparr>]
   \<and> fst (start ''a'' demo_a) = Inr ()
   \<and> active (snd (start ''a'' demo_a)) =
       [\<lparr>ar_index = 0, ar_state = 0\<rparr>, \<lparr>ar_index = 0, ar_state = 0\<rparr>]
   \<and> trace (snd (start ''a'' demo_a)) =
       trace demo_a @ [Call 0 Init, LoaderReset 0, Call 0 Preload, Call 0 Create, MainloopStart 0]"
proof -
  have g: "getState ''a'' demo_a = JState 0"
    by (simp add: getState_def of_state_def demo_a_facts)
  have i: "getStateIndex (JState 0) demo_a = 0"
    by (simp add: getStateIndex_def indexOf_def of_state_def demo_a_facts)
  show ?thesis
    using start_no_preload [OF demo_a_facts(1) g] i
    by (simp add: demo_a_facts sort_by_def sortStates_def)
qed

subsection \<open>C3: rejecting a duplicate key\<close>

text \<open>
  C3 says that after boot an \<open>add\<close> whose resolved key is already in the registry
  fails with the duplicate-key error and changes nothing. \<open>getKey\<close> tests the key
  with \<open>this.keys.hasOwnProperty(key)\<close> on a plain object, and that misses two cases.
  A state registered under \<open>__proto__\<close> became the prototype of \<open>this.keys\<close>, not a
  property of it: \<open>getState('__proto__')\<close> finds it, and the same \<open>add\<close> again is
  accepted and registers a second state. And once a state is registered under
  \<open>hasOwnProperty\<close>, the test itself is a TypeError, so the same \<open>add\<close> again fails
  with that error and not with the duplicate-key error. (For any other registry and
  key, lemma \<open>add_duplicate\<close> gives the duplicate-key error and an unchanged manager.)
\<close>

theorem duplicate_of_prototype_name_not_rejected:
  "fst (add demo_collab (Some ''__proto__'') (SObject 3) None demo0) = Inr (Some 0)
   \<and> getState ''__proto__'' demo_proto = JState 0
   \<and> states demo_proto = [Some 0]
   \<and> fst (add demo_collab (Some ''__proto__'') (SObject 3) None demo_proto) = Inr (Some 1)
   \<and> states (snd (add demo_collab (Some ''__proto__'') (SObject 3) None demo_proto))
       = [Some 0, Some 1]
   \<and> fst (add demo_collab (Some ''hasOwnProperty'') (SObject 3) None demo0) = Inr (Some 0)
   \<and> getState ''hasOwnProperty'' demo_hop = JState 0
   \<and> add demo_collab (Some ''hasOwnProperty'') (SObject 3) None demo_hop
       = (Inl TypeError, demo_hop)"
proof -
  have b: "isBooted (game demo_proto)" by (simp add: demo_proto_facts demo_game_def)
  have g: "getKey (Some ''__proto__'') (SObject 3) demo_proto = Inr ''__proto__''"
    by (simp add: getKey_def resolveKey_def demo_proto_facts)
  note m = add_object_mutates_record(1) [OF b g, of demo_collab None]
  obtain s' where a: "add demo_collab (Some ''__proto__'') (SObject 3) None demo_proto
      = (Inr (Some 1), s')"
    using m by (cases "add demo_collab (Some ''__proto__'') (SObject 3) None demo_proto")
      (simp add: demo_proto_facts)
  have st: "states (snd (add demo_collab (Some ''__proto__'') (SObject 3) None demo_proto))
       = [Some 0, Some 1]"
    using add_states [OF b a] a by (simp add: demo_proto_facts)
  have h: "add demo_collab (Some ''hasOwnProperty'') (SObject 3) None demo_hop
       = (Inl TypeError, demo_hop)"
    by (simp add: add_def getKey_def resolveKey_def demo_hop_facts)
  show ?thesis
    using a st h
    by (simp add: demo_proto_facts demo_hop_facts getState_def inherited_def of_state_def)
qed

subsection \<open>C4: a state that has files to load becomes active when the load completes\<close>

text \<open>
  C4: for a registered state that has a loader and whose \<open>preload\<close> hook queues at
  least one file, \<open>start(key)\<close> leaves the state out of the active list (it was not
  in it before the call): the loader was reset, \<open>preload\<close> ran, the loader holds the
  queued files and one more one-shot listener, it was told to start, and \<open>create\<close>
  was not called. When the completion is delivered, \<open>loadComplete\<close> calls
  \<open>loadUpdate\<close> first if and only if the state has that property, then \<open>create\<close>, and
  the state is in the active list.
\<close>

theorem start_with_queued_files_waits_for_loader:
  assumes "isBooted (game s)" and "getState key s = JState r"
    and "hooks (heap s r) Preload = Fn n" and "0 < n"
    and "load (sys (heap s r)) = Some l"
    and "r \<notin> ar_state ` set (active s)"
  shows "fst (start key s) = Inr ()
    \<and> r \<notin> ar_state ` set (active (snd (start key s)))
    \<and> load (sys (heap (snd (start key s)) r)) =
        Some (l\<lparr>list_size := n, once_listeners := Suc (once_listeners l)\<rparr>)
    \<and> trace (snd (start key s)) =
        trace s
        @ (if hooks (heap s r) Init \<noteq> Absent then [Call r Init] else [])
        @ [LoaderReset r, Call r Preload, LoaderOnce r, LoaderStart r]
    \<and> r \<in> ar_state ` set (active (loadComplete r (snd (start key s))))
    \<and> trace (loadComplete r (snd (start key s))) =
        trace (snd (start key s))
        @ (if hooks (heap s r) LoadUpdate \<noteq> Absent then [Call r LoadUpdate] else [])
        @ (if hooks (heap s r) Create \<noteq> Absent then [Call r Create] else [])
        @ [MainloopStart r]"
proof -
  note st = start_with_preload [OF assms(1-5)]
  have "r \<in> ar_state ` set (active (loadComplete r (snd (start key s))))"
    by (simp add: loadComplete_active set_sort_by)
  then show ?thesis using st assms(6) by (simp add: loadComplete_trace)
qed

theorem start_with_queued_files_waits_for_loader_witness:
  "isBooted (game demo_b) \<and> getState ''b'' demo_b = JState 0
   \<and> hooks (heap demo_b 0) Preload = Fn 2 \<and> (0::nat) < 2
   \<and> load (sys (heap demo_b 0)) = Some \<lparr>list_size = 0, once_listeners = 0\<rparr>
   \<and> 0 \<notin> ar_state ` set (active demo_b)
   \<and> fst (start ''b'' demo_b) = Inr ()
   \<and> 0 \<notin> ar_state ` set (active (snd (start ''b'' demo_b)))
   \<and> trace (snd (start ''b'' demo_b)) =
       [SysInit 0, Call 0 Init, LoaderReset 0, Call 0 Preload, LoaderOnce 0, LoaderStart 0]
   \<and> 0 \<in> ar_state ` set (active (loadComplete 0 (snd (start ''b'' demo_b))))
   \<and> trace (loadComplete 0 (snd (start ''b'' demo_b))) =
       [SysInit 0, Call 0 Init, LoaderReset 0, Call 0 Preload, LoaderOnce 0, LoaderStart 0,
        Call 0 Create, MainloopStart 0]"
proof -
  have g: "getState ''b'' demo_b = JState 0"
    by (simp add: getState_def of_state_def demo_b_facts)
  have n: "0 \<notin> ar_state ` set (active demo_b)" by (simp add: demo_b_facts)
  show ?thesis
    using start_with_queued_files_waits_for_loader
      [OF demo_b_facts(1) g demo_b_facts(5) _ demo_b_facts(9) n] g
    by (simp add: demo_b_facts)
qed

subsection \<open>C5: the active list is sorted by registration index\<close>

text \<open>
  C5: the create phase, the only place where a record enters the active list, leaves
  the list sorted by \<open>index\<close>, smaller first; \<open>start\<close>, \<open>loadComplete\<close>, \<open>pause\<close> and
  \<open>add\<close> keep a sorted list sorted. And for three states \<open>a\<close>, \<open>b\<close>, \<open>c\<close> registered
  in this order (indices 0, 1, 2), none with files to load, started in any order
  \<open>k1\<close>, \<open>k2\<close>, \<open>k3\<close> from an empty active list, the active list holds \<open>a\<close>, then
  \<open>b\<close>, then \<open>c\<close>.
\<close>

theorem active_set_sorted_by_index:
  assumes "isBooted (game s)"
    and "states s = [Some a, Some b, Some c]" and "distinct [a, b, c]"
    and "active s = []"
    and "getState k1 s = JState r1" and "getState k2 s = JState r2"
    and "getState k3 s = JState r3"
    and "distinct [r1, r2, r3]" and "set [r1, r2, r3] = {a, b, c}"
    and "\<And>r. r \<in> {a, b, c} \<Longrightarrow>
           hooks (heap s r) Preload = Absent \<or> hooks (heap s r) Preload = NOOP"
  shows "sorted (map ar_index (active (startCreate r' s')))
    \<and> (sorted (map ar_index (active s')) \<longrightarrow>
          sorted (map ar_index (active (snd (start key' s'))))
          \<and> sorted (map ar_index (active (loadComplete r' s')))
          \<and> sorted (map ar_index (active (snd (pause key' s'))))
          \<and> sorted (map ar_index (active (snd (add C key0 src auto s')))))
    \<and> fst (start k1 s) = Inr ()
    \<and> fst (start k2 (snd (start k1 s))) = Inr ()
    \<and> fst (start k3 (snd (start k2 (snd (start k1 s))))) = Inr ()
    \<and> active (snd (start k3 (snd (start k2 (snd (start k1 s)))))) =
          [\<lparr>ar_index = 0, ar_state = a\<rparr>, \<lparr>ar_index = 1, ar_state = b\<rparr>,
           \<lparr>ar_index = 2, ar_state = c\<rparr>]"
  using three_states_in_order [OF assms]
  by (simp add: startCreate_active sorted_sort_by start_sorted loadComplete_sorted
        pause_string_key add_sorted)

theorem active_set_sorted_by_index_witness:
  "isBooted (game demo_abc) \<and> states demo_abc = [Some 0, Some 1, Some 2]
   \<and> distinct [0::nat, 1, 2] \<and> active demo_abc = []
   \<and> getState ''c'' demo_abc = JState 2 \<and> getState ''a'' demo_abc = JState 0
   \<and> getState ''b'' demo_abc = JState 1
   \<and> distinct [2::nat, 0, 1] \<and> set [2::nat, 0, 1] = {0, 1, 2}
   \<and> hooks (heap demo_abc 0) Preload = NOOP \<and> hooks (heap demo_abc 1) Preload = NOOP
   \<and> hooks (heap demo_abc 2) Preload = NOOP
   \<and> sorted (map ar_index (active demo_a))
   \<and> sorted (map ar_index (active (snd (start ''a'' demo_a))))
   \<and> active (snd (start ''b'' (snd (start ''a'' (snd (start ''c'' demo_abc)))))) =
         [\<lparr>ar_index = 0, ar_state = 0\<rparr>, \<lparr>ar_index = 1, ar_state = 1\<rparr>,
          \<lparr>ar_index = 2, ar_state = 2\<rparr>]"
proof -
  have g: "getState ''c'' demo_abc = JState 2" "getState ''a'' demo_abc = JState 0"
    "getState ''b'' demo_abc = JState 1"
    by (simp_all add: getState_def of_state_def demo_abc_facts)
  have d: "distinct [0::nat, 1, 2]" "distinct [2::nat, 0, 1]" by simp_all
  have e: "set [2::nat, 0, 1] = {0, 1, 2}" by auto
  have np: "\<And>r. r \<in> {0::nat, 1, 2} \<Longrightarrow>
      hooks (heap demo_abc r) Preload = Absent \<or> hooks (heap demo_abc r) Preload = NOOP"
    by (auto simp add: demo_abc_facts)
  have sa: "sorted (map ar_index (active demo_a))" by (simp add: demo_a_facts)
  show ?thesis
    using active_set_sorted_by_index
      [OF demo_abc_facts(1) demo_abc_facts(5) d(1) demo_abc_facts(6) g d(2) e np,
       of 0 demo_a "''a''" demo_collab None SOther None] g d e np sa
    by (simp add: demo_abc_facts)
qed

subsection \<open>C6: registrations before boot are buffered and replayed by boot\<close>

text \<open>
  C6 says that \<open>boot()\<close> calls \<open>add\<close> for each buffered entry and then clears the
  queue. That fails when one of the replayed calls throws: the error leaves the loop
  and \<open>boot\<close>, the later entries are not replayed and the queue stays as it was. A
  manager built with an array of two keyless records buffers both under the key
  \<open>default\<close>; at boot the first is registered and the second is a duplicate.
\<close>

theorem boot_stops_at_failing_add:
  "boot demo_collab demo_array = Some (Inl (DuplicateKeyError ''default''), demo_array1)
   \<and> length (pending demo_array) = 2
   \<and> pending demo_array1 = pending demo_array
   \<and> states demo_array1 = [Some 0]"
proof -
  have r: "resolveKey (Some ''default'') (SObject 4) demo_array1 = Inr ''default''"
    by (simp add: resolveKey_def demo_array1_facts)
  have k: "keys demo_array1 ''default'' \<noteq> None" by (simp add: demo_array1_facts)
  have d: "add demo_collab (Some ''default'') (SObject 4) (Some False) demo_array1
             = (Inl (DuplicateKeyError ''default''), demo_array1)"
    using add_duplicate [OF demo_array1_facts(2) r demo_array1_facts(7) k] .
  have "boot demo_collab demo_array
          = Some (replay_in_order demo_collab (pending demo_array) demo_array)"
    using boot_loop_replay [OF demo_array_facts(1), of demo_collab 0] by (simp add: boot_def)
  also have "replay_in_order demo_collab (pending demo_array) demo_array
          = (Inl (DuplicateKeyError ''default''), demo_array1)"
    by (simp add: demo_array_facts demo_array1_facts(1) d)
  finally show ?thesis by (simp add: demo_array_facts demo_array1_facts)
qed

text \<open>
  C6 as amended: every \<open>add\<close> before boot appends the record \<open>{index: length of the
  queue, key, source, autoStart}\<close> (\<open>autoStart\<close> false when omitted) to the queue and
  returns \<open>undefined\<close> with nothing else changed. Once the game is booted, \<open>boot()\<close>
  returns, and it has replayed the queue in insertion order, calling \<open>add\<close> with the
  key, source and \<open>autoStart\<close> of each entry, up to the first call that fails; when no
  call fails the queue is empty afterwards.
\<close>

theorem add_buffers_before_boot_and_boot_replays:
  "(\<not> isBooted (game s) \<longrightarrow>
      add C key0 stateConfig autoStart s =
        (Inr None,
         s\<lparr>pending := pending s @
              [\<lparr>p_index = int (length (pending s)), p_key = key0, p_state = stateConfig,
                p_autoStart = (autoStart = Some True)\<rparr>]\<rparr>))
   \<and> (isBooted (game b) \<longrightarrow>
        boot C b = Some (replay_in_order C (pending b) b)
        \<and> (\<forall>b'. boot C b = Some (Inr (), b') \<longrightarrow> pending b' = []))"
proof -
  have 1: "\<not> isBooted (game s) \<Longrightarrow>
      add C key0 stateConfig autoStart s =
        (Inr None,
         s\<lparr>pending := pending s @
              [\<lparr>p_index = int (length (pending s)), p_key = key0, p_state = stateConfig,
                p_autoStart = (autoStart = Some True)\<rparr>]\<rparr>)"
    by (cases autoStart) (simp_all add: add_def)
  have 2: "isBooted (game b) \<Longrightarrow> boot C b = Some (replay_in_order C (pending b) b)"
    using boot_loop_replay [of b C 0] by (simp add: boot_def)
  have 3: "isBooted (game b) \<Longrightarrow> boot C b = Some (Inr (), b') \<Longrightarrow> pending b' = []" for b'
    using 2 replay_clears [of C "pending b" b "()" b'] by simp
  show ?thesis using 1 2 3 by blast
qed

theorem add_buffers_before_boot_and_boot_replays_witness:
  "\<not> isBooted (game demo_unbooted)
   \<and> add demo_collab (Some ''a'') (SObject 3) (Some True) demo_unbooted =
       (Inr None,
        demo_unbooted\<lparr>pending :=
          [\<lparr>p_index = 0, p_key = Some ''a'', p_state = SObject 3, p_autoStart = True\<rparr>]\<rparr>)
   \<and> isBooted (game demo_buffered)
   \<and> boot demo_collab demo_buffered
       = Some (replay_in_order demo_collab (pending demo_buffered) demo_buffered)"
proof -
  have u: "\<not> isBooted (game demo_unbooted)" "pending demo_unbooted = []"
    by (simp_all add: demo_unbooted_def StateManager_def demo_game_def)
  show ?thesis
    using add_buffers_before_boot_and_boot_replays
      [of demo_unbooted demo_collab "Some ''a''" "SObject 3" "Some True" demo_buffered]
      u demo_buffered_facts(1)
    by simp
qed

subsection \<open>C7: step and the states that are paused\<close>

text \<open>
  C7 says that \<open>step(timestamp)\<close> forwards the step to the states of the active list
  whose main loop is running, in the order of the list, and that the driver of a state
  that is not in the active list, a paused state for one, never receives it. The
  first part holds (lemma \<open>step_visits_running_records\<close>: \<open>step\<close> appends one step
  call per record of the active list whose state has a running main loop, in list
  order, and changes nothing else). The part about a paused state fails, by the defect
  of C1: \<open>pause(key)\<close> removes nothing, so the paused state is still in the active
  list and its driver still receives the step. In the sample world, after
  \<open>add('a', record 0, true)\<close> and \<open>pause('a')\<close>, \<open>step(7)\<close> calls the driver of
  state 0.
\<close>

theorem step_reaches_paused_state:
  "active demo_a = [\<lparr>ar_index = 0, ar_state = 0\<rparr>]
   \<and> mainloop_running (sys (heap demo_a 0))
   \<and> pause ''a'' demo_a = (Inr (), demo_a)
   \<and> trace (step 7 (snd (pause ''a'' demo_a))) = trace demo_a @ [MainloopStep 0 7]"
  by (simp add: pause_string_key step_visits_running_records demo_a_facts demo_a_more)

subsection \<open>C8: a state without a preload hook is active when start returns\<close>

text \<open>
  C8: after boot, for a registered state whose \<open>preload\<close> property is absent or is
  the no-op that the registration installs, \<open>start(key)\<close> calls \<open>init\<close> and \<open>create\<close>
  (each when the state has it), puts the record of the state in the active list and
  sets the active flag, all before it returns; the loader is neither subscribed to nor
  started.
\<close>

theorem start_without_preload_is_synchronous:
  assumes "isBooted (game s)" and "getState key s = JState r"
    and "hooks (heap s r) Preload = Absent \<or> hooks (heap s r) Preload = NOOP"
  shows "fst (start key s) = Inr ()
    \<and> \<lparr>ar_index = getStateIndex (JState r) s, ar_state = r\<rparr> \<in> set (active (snd (start key s)))
    \<and> settings_active (settings (heap (snd (start key s)) r))
    \<and> trace (snd (start key s)) =
        trace s
        @ (if hooks (heap s r) Init \<noteq> Absent then [Call r Init] else [])
        @ (if hooks (heap s r) Preload = NOOP \<and> load (sys (heap s r)) \<noteq> None
           then [LoaderReset r, Call r Preload] else [])
        @ (if hooks (heap s r) Create \<noteq> Absent then [Call r Create] else [])
        @ [MainloopStart r]"
proof -
  note st = start_no_preload [OF assms]
  have "settings_active (settings (heap (snd (start key s)) r))"
    using start_of_state [OF assms(1,2)] by (simp add: start_state_active_flag)
  then show ?thesis using st by (simp add: set_sort_by)
qed

theorem start_without_preload_is_synchronous_witness:
  "isBooted (game demo_abc) \<and> getState ''a'' demo_abc = JState 0
   \<and> (hooks (heap demo_abc 0) Preload = Absent \<or> hooks (heap demo_abc 0) Preload = NOOP)
   \<and> fst (start ''a'' demo_abc) = Inr ()
   \<and> \<lparr>ar_index = 0, ar_state = 0\<rparr> \<in> set (active (snd (start ''a'' demo_abc)))
   \<and> trace (snd (start ''a'' demo_abc)) =
       [SysInit 0, SysInit 1, SysInit 2,
        Call 0 Init, LoaderReset 0, Call 0 Preload, Call 0 Create, MainloopStart 0]"
proof -
  have g: "getState ''a'' demo_abc = JState 0"
    by (simp add: getState_def of_state_def demo_abc_facts)
  have np: "hooks (heap demo_abc 0) Preload = Absent \<or> hooks (heap demo_abc 0) Preload = NOOP"
    by (simp add: demo_abc_facts)
  have i: "getStateIndex (JState 0) demo_abc = 0"
    by (simp add: getStateIndex_def indexOf_def of_state_def demo_abc_facts)
  show ?thesis
    using start_without_preload_is_synchronous [OF demo_abc_facts(1) g np] g np i
    by (simp add: demo_abc_facts)
qed

subsection \<open>C9: the key a registration resolves to\<close>

text \<open>
  C9 says that the explicit key argument wins over a key embedded in the source. The
  code does the opposite: \<open>getKey\<close> starts from the argument (or \<open>default\<close>) and
  then overwrites it with the key of the source whenever the source has one. In the
  sample world \<open>add('explicit', record 1)\<close>, where record 1 has the key \<open>embedded\<close>,
  registers the state under \<open>embedded\<close> and not under \<open>explicit\<close>.
\<close>

theorem explicit_key_is_overridden:
  "fst (add demo_collab (Some ''explicit'') (SObject 1) None demo0) = Inr (Some 0)
   \<and> keys (snd (add demo_collab (Some ''explicit'') (SObject 1) None demo0)) ''explicit'' = None
   \<and> keys (snd (add demo_collab (Some ''explicit'') (SObject 1) None demo0)) ''embedded''
       = Some (Some 0)"
  by (simp add: demo0_def model_defs)

text \<open>
  C9 as amended: after boot, a successful \<open>add\<close> registers the state under the
  \<open>settings.key\<close> of the source when the source is a State instance, under the \<open>key\<close>
  property of the source when it is a plain record that has one, and otherwise under
  the key argument when that is a non-empty string, else under \<open>default\<close>; and under
  no other key. With \<open>K\<close> that key: the state is appended to the list of states;
  \<open>K\<close> is the only entry of the key map that is written (for the key \<open>__proto__\<close>
  no entry is written and the state becomes the prototype of the key map); and
  \<open>getState(K)\<close> finds the new state.
\<close>

theorem add_registers_under_resolved_key:
  assumes "isBooted (game s)" and "add C key0 src a s = (Inr v, s')"
  shows "let K = (case src of
                    SInstance r \<Rightarrow> settings_key (settings (heap s r))
                  | SObject c \<Rightarrow>
                      (case cfg_key (configs s c) of
                         Some k \<Rightarrow> k
                       | None \<Rightarrow> (case key0 of None \<Rightarrow> ''default''
                                             | Some k \<Rightarrow> if k = [] then ''default'' else k))
                  | _ \<Rightarrow> (case key0 of None \<Rightarrow> ''default''
                                      | Some k \<Rightarrow> if k = [] then ''default'' else k))
         in states s' = states s @ [v]
            \<and> (K \<noteq> ''__proto__'' \<longrightarrow>
                 keys s' = (keys s)(K \<mapsto> v) \<and> keys_proto s' = keys_proto s)
            \<and> (K = ''__proto__'' \<longrightarrow>
                 keys s' = keys s
                 \<and> keys_proto s' = (case v of None \<Rightarrow> keys_proto s | Some r \<Rightarrow> Some r))
            \<and> (\<forall>n. v = Some n \<longrightarrow> getState K s' = JState n)"
proof -
  obtain key where k: "getKey key0 src s = Inr key"
    and st: "states s' = states s @ [v]"
    and ks: "keys s' = (if key = ''__proto__'' then keys s else (keys s)(key \<mapsto> v))"
    and kp: "keys_proto s' =
               (if key = ''__proto__''
                then (case v of None \<Rightarrow> keys_proto s | Some r \<Rightarrow> Some r)
                else keys_proto s)"
    using add_registry [OF assms] by blast
  have free: "keys s key = None"
    using k by (auto simp add: getKey_def split: sum.splits if_splits)
  have g: "\<forall>n. v = Some n \<longrightarrow> getState key s' = JState n"
    using ks kp free by (auto simp add: getState_def inherited_def of_state_def)
  show ?thesis
    using getKey_resolved [OF k] st ks kp g by (simp add: Let_def)
qed

theorem add_registers_under_resolved_key_witness:
  "isBooted (game demo0)
   \<and> add demo_collab (Some ''explicit'') (SObject 1) None demo0
       = (Inr (Some 0), snd (add demo_collab (Some ''explicit'') (SObject 1) None demo0))
   \<and> keys (snd (add demo_collab (Some ''explicit'') (SObject 1) None demo0))
       = [''embedded'' \<mapsto> Some 0]
   \<and> getState ''embedded'' (snd (add demo_collab (Some ''explicit'') (SObject 1) None demo0))
       = JState 0"
proof -
  have b: "isBooted (game demo0)" by (simp add: demo0_facts demo_game_def)
  have a: "add demo_collab (Some ''explicit'') (SObject 1) None demo0
       = (Inr (Some 0), snd (add demo_collab (Some ''explicit'') (SObject 1) None demo0))"
    by (simp add: prod_eq_iff) (simp add: demo0_def model_defs)
  show ?thesis
    using add_registers_under_resolved_key [OF b a] b a
    by (simp add: demo0_facts demo_configs_def Let_def)
qed

subsection \<open>C10: add writes the key into the caller's record\<close>

text \<open>
  C10: after boot, when the source is a plain configuration record, \<open>add\<close> writes the
  resolved key into the \<open>key\<close> property of the caller's record before it builds the
  state. Every call that gets as far as building a state does so: when \<open>getKey\<close>
  returns a key, \<open>add\<close> succeeds, the only change in the store of configuration
  records is that the \<open>key\<close> property of the caller's record holds that key, and the
  State constructor received the record with that key. When \<open>getKey\<close> throws (a
  duplicate key, or \<open>hasOwnProperty\<close> shadowed in the key map), \<open>add\<close> throws the
  same error and nothing is written.
\<close>

theorem add_overwrites_key_of_record:
  assumes "isBooted (game s)"
  shows "case getKey key0 (SObject c) s of
           Inl e \<Rightarrow> add C key0 (SObject c) a s = (Inl e, s)
         | Inr k \<Rightarrow>
             fst (add C key0 (SObject c) a s) = Inr (Some (next_ref s))
             \<and> configs (snd (add C key0 (SObject c) a s))
                 = (configs s)(c := (configs s c)\<lparr>cfg_key := Some k\<rparr>)
             \<and> settings_key (settings (heap (snd (add C key0 (SObject c) a s)) (next_ref s)))
                 = settings_key (settings (State_ctor C ((configs s c)\<lparr>cfg_key := Some k\<rparr>)))"
proof (cases "getKey key0 (SObject c) s")
  case (Inl e)
  then show ?thesis using assms by (simp add: add_def)
next
  case (Inr k)
  then show ?thesis using add_object_mutates_record [OF assms Inr, of C a] by simp
qed

theorem add_overwrites_key_of_record_witness:
  "isBooted (game demo0) \<and> getKey (Some ''a'') (SObject 0) demo0 = Inr ''a''
   \<and> cfg_key (configs demo0 0) = None
   \<and> cfg_key (configs (snd (add demo_collab (Some ''a'') (SObject 0) (Some True) demo0)) 0)
       = Some ''a''
   \<and> settings_key (settings
        (heap (snd (add demo_collab (Some ''a'') (SObject 0) (Some True) demo0)) 0)) = ''a''"
proof -
  have b: "isBooted (game demo0)" by (simp add: demo0_facts demo_game_def)
  have g: "getKey (Some ''a'') (SObject 0) demo0 = Inr ''a''"
    by (simp add: getKey_def resolveKey_def demo0_facts demo_configs_def)
  show ?thesis
    using add_overwrites_key_of_record [OF b, of demo_collab "Some ''a''" 0 "Some True"] b g
    by (simp add: demo0_facts demo_configs_def demo_collab_def blank_state_def)
qed

end
